theory Spec2Isabelle
  imports Complex_Main "HOL-Library.Product_Lexorder"
begin

section \<open>Album aggregation (services/aggregation.py)\<close>

text \<open>
  The aggregation service reduces the per-image analysis dictionaries to one album
  profile. The dictionaries are modelled as records whose fields are the keys the
  reducers read, typed as the vision prompt of \<^verbatim>\<open>image_analysis.py\<close> documents
  them; a field is \<open>None\<close> when the key is absent, so that \<^verbatim>\<open>d.get(k, default)\<close>
  is a case distinction on the option. A key that is present with a value of another
  type (for example \<^verbatim>\<open>null\<close>) is outside the model. Python floats are modelled as
  exact rationals and \<^verbatim>\<open>round(x, n)\<close> as rounding half to even on the exact value.
  Every operation of the source that can raise on such input (a division, an index) is
  a branch of the model that returns \<open>Inl\<close> of the exception.
\<close>

subsection \<open>Input: per-image analysis records\<close>

record SceneBlock =
  primary_category :: "string option"
  secondary_categories :: "string list option"

record ElemData =
  present :: "bool option"
  prominence :: "rat option"
  count :: "int option"

record VisualBlock =
  dominant_colors :: "string list option"
  color_temperature :: "string option"
  lighting_condition :: "string option"
  indoor_outdoor :: "string option"
  time_of_day :: "string option"
  weather_apparent :: "string option"

record MoodBlock =
  overall_mood :: "string option"
  energy_level :: "string option"
  descriptive_tags :: "string list option"

text \<open>
  The analysis payload. \<open>other_keys\<close> says whether the dictionary holds keys that no
  reducer reads: such a payload is a non-empty dictionary even when the five blocks
  are all absent.
\<close>

record Analysis =
  scene_classification :: "SceneBlock option"
  segmented_elements :: "(string \<rightharpoonup> ElemData) option"
  visual_features :: "VisualBlock option"
  mood_atmosphere :: "MoodBlock option"
  notable_elements :: "string list option"
  other_keys :: bool

record ImageResult =
  success :: "bool option"
  analysis :: "Analysis option"

subsection \<open>Python helpers: errors, truthiness, division, rounding, Counter\<close>

datatype py_error = ZeroDivisionError | IndexError | KeyError

definition bind_err :: "py_error + 'a \<Rightarrow> ('a \<Rightarrow> py_error + 'b) \<Rightarrow> py_error + 'b" where
  "bind_err m f = (case m of Inl e \<Rightarrow> Inl e | Inr v \<Rightarrow> f v)"

fun map_err :: "('a \<Rightarrow> py_error + 'b) \<Rightarrow> 'a list \<Rightarrow> py_error + 'b list" where
  "map_err f [] = Inr []"
| "map_err f (x # xs) =
     bind_err (f x) (\<lambda>y. bind_err (map_err f xs) (\<lambda>ys. Inr (y # ys)))"

definition truthy_str :: "string option \<Rightarrow> bool" where
  "truthy_str v = (case v of None \<Rightarrow> False | Some s \<Rightarrow> s \<noteq> [])"

definition truthy_bool :: "bool option \<Rightarrow> bool" where
  "truthy_bool v = (case v of None \<Rightarrow> False | Some b \<Rightarrow> b)"

definition dict_nonempty :: "Analysis \<Rightarrow> bool" where
  "dict_nonempty a \<longleftrightarrow>
     scene_classification a \<noteq> None \<or> segmented_elements a \<noteq> None \<or>
     visual_features a \<noteq> None \<or> mood_atmosphere a \<noteq> None \<or>
     notable_elements a \<noteq> None \<or> other_keys a"

definition get_list :: "'a list option \<Rightarrow> 'a list" where
  "get_list v = (case v of None \<Rightarrow> [] | Some xs \<Rightarrow> xs)"

definition py_div :: "rat \<Rightarrow> rat \<Rightarrow> py_error + rat" where
  "py_div a b = (if b = 0 then Inl ZeroDivisionError else Inr (a / b))"

definition round_half_even :: "rat \<Rightarrow> int" where
  "round_half_even x =
     (let f = \<lfloor>x\<rfloor>; d = x - of_int f
      in if d < 1 / 2 then f else if 1 / 2 < d then f + 1
         else if even f then f else f + 1)"

definition py_round :: "rat \<Rightarrow> nat \<Rightarrow> rat" where
  "py_round x ndigits = of_int (round_half_even (x * 10 ^ ndigits)) / 10 ^ ndigits"

text \<open>
  A \<^verbatim>\<open>Counter\<close> is a dictionary in insertion order: an association list whose keys
  are in the order in which they were first counted.
\<close>

type_synonym 'k counter = "('k \<times> nat) list"

fun counter_incr :: "'k \<Rightarrow> 'k counter \<Rightarrow> 'k counter" where
  "counter_incr k [] = [(k, 1)]"
| "counter_incr k ((k', c) # kcs) =
     (if k = k' then (k', c + 1) # kcs else (k', c) # counter_incr k kcs)"

definition Counter :: "'k list \<Rightarrow> 'k counter" where
  "Counter ks = fold counter_incr ks []"

text \<open>
  \<^verbatim>\<open>most_common()\<close> sorts the items by count, descending, with a stable sort;
  \<^verbatim>\<open>most_common(n)\<close> is its first \<open>n\<close> items.
\<close>

definition most_common :: "'k counter \<Rightarrow> 'k counter" where
  "most_common kcs = sort_key (\<lambda>(k, c). - int c) kcs"

definition most_common_n :: "nat \<Rightarrow> 'k counter \<Rightarrow> 'k counter" where
  "most_common_n n kcs = take n (most_common kcs)"

text \<open>\<^verbatim>\<open>c.most_common(1)[0][0] if c else fallback\<close>\<close>

definition top_or :: "string counter \<Rightarrow> string \<Rightarrow> py_error + string" where
  "top_or c fallback =
     (if c \<noteq> [] then
        (case most_common_n 1 c of [] \<Rightarrow> Inl IndexError | (k, n) # rest \<Rightarrow> Inr k)
      else Inr fallback)"

definition incr_if :: "string option \<Rightarrow> string counter \<Rightarrow> string counter" where
  "incr_if v c = (case v of None \<Rightarrow> c | Some s \<Rightarrow> if s \<noteq> [] then counter_incr s c else c)"

subsection \<open>Scene reducer\<close>

record RankedCategory =
  category :: string
  cat_count :: nat
  percentage :: rat

record SceneSummary =
  primary_categories :: "RankedCategory list"
  all_categories :: "RankedCategory list"
  dominant_scene_type :: string
  scene_diversity :: nat

definition get_scene :: "Analysis \<Rightarrow> SceneBlock" where
  "get_scene a = (case scene_classification a of
       None \<Rightarrow> \<lparr>primary_category = None, secondary_categories = None\<rparr>
     | Some s \<Rightarrow> s)"

definition scene_step :: "Analysis \<Rightarrow> string counter \<times> string counter \<Rightarrow> string counter \<times> string counter" where
  "scene_step a acc =
     (let scene = get_scene a;
          primary = primary_category scene;
          acc1 = (case primary of
                    None \<Rightarrow> acc
                  | Some p \<Rightarrow> if p \<noteq> [] then (counter_incr p (fst acc), counter_incr p (snd acc))
                              else acc)
      in (fst acc1, fold counter_incr (get_list (secondary_categories scene)) (snd acc1)))"

definition ranked_entry :: "nat \<Rightarrow> string \<times> nat \<Rightarrow> py_error + RankedCategory" where
  "ranked_entry total' kc =
     bind_err (py_div (of_nat (snd kc)) (of_nat total'))
       (\<lambda>q. Inr \<lparr>category = fst kc, cat_count = snd kc, percentage = py_round (q * 100) 1\<rparr>)"

definition aggregate_scene_classifications :: "Analysis list \<Rightarrow> py_error + SceneSummary" where
  "aggregate_scene_classifications analyses =
     (let acc = fold scene_step analyses ([], []);
          primary_cats = fst acc;
          all_cats = snd acc;
          total' = length analyses
      in bind_err (map_err (ranked_entry total') (most_common primary_cats)) (\<lambda>primary_ranked.
         bind_err (map_err (ranked_entry total') (most_common all_cats)) (\<lambda>all_ranked.
         Inr \<lparr>primary_categories = primary_ranked,
              all_categories = all_ranked,
              dominant_scene_type =
                (case primary_ranked of [] \<Rightarrow> ''mixed'' | r # rest \<Rightarrow> category r),
              scene_diversity = length primary_cats\<rparr>)))"

subsection \<open>Element reducer\<close>

record ElementStat =
  presence_count :: nat
  presence_rate :: rat
  avg_prominence :: rat

record PeoplePresence =
  images_with_people :: nat
  avg_people_per_image :: rat

record ElementSummary =
  element_stats :: "(string \<times> ElementStat) list"
  ranked_by_presence :: "(string \<times> ElementStat) list"
  dominant_elements :: "string list"
  rare_elements :: "string list"
  people_presence :: PeoplePresence

text \<open>
  The accumulators of the loop: two \<^verbatim>\<open>defaultdict\<close>s (total functions, default 0)
  and the two people counters.
\<close>

record ElemAcc =
  element_presence :: "string \<Rightarrow> nat"
  element_prominence_sum :: "string \<Rightarrow> rat"
  people_count_total :: int
  people_images :: nat

definition elements_to_track :: "string list" where
  "elements_to_track =
     [''sky'', ''buildings'', ''water'', ''people'', ''vegetation'', ''food_drinks'',
      ''vehicles_transit'']"

definition get_segments :: "Analysis \<Rightarrow> (string \<rightharpoonup> ElemData)" where
  "get_segments a = (case segmented_elements a of None \<Rightarrow> Map.empty | Some m \<Rightarrow> m)"

definition get_elem :: "(string \<rightharpoonup> ElemData) \<Rightarrow> string \<Rightarrow> ElemData" where
  "get_elem segments element = (case segments element of
       None \<Rightarrow> \<lparr>present = None, prominence = None, count = None\<rparr>
     | Some d \<Rightarrow> d)"

definition get_num :: "'a::zero option \<Rightarrow> 'a" where
  "get_num v = (case v of None \<Rightarrow> 0 | Some x \<Rightarrow> x)"

definition elem_step :: "(string \<rightharpoonup> ElemData) \<Rightarrow> string \<Rightarrow> ElemAcc \<Rightarrow> ElemAcc" where
  "elem_step segments element acc =
     (let elem_data = get_elem segments element
      in if truthy_bool (present elem_data) then
           (let acc1 = acc\<lparr>
                  element_presence :=
                    (element_presence acc)(element := element_presence acc element + 1),
                  element_prominence_sum :=
                    (element_prominence_sum acc)
                      (element := element_prominence_sum acc element
                                  + get_num (prominence elem_data))\<rparr>
            in if element = ''people'' then
                 (let cnt = get_num (count elem_data)
                  in if cnt \<noteq> 0 then
                       acc1\<lparr>people_count_total := people_count_total acc1 + cnt,
                            people_images := people_images acc1 + 1\<rparr>
                     else acc1)
               else acc1)
         else acc)"

definition analysis_step :: "Analysis \<Rightarrow> ElemAcc \<Rightarrow> ElemAcc" where
  "analysis_step a acc = fold (elem_step (get_segments a)) elements_to_track acc"

definition elem_acc_init :: ElemAcc where
  "elem_acc_init = \<lparr>element_presence = (\<lambda>e. 0), element_prominence_sum = (\<lambda>e. 0),
                     people_count_total = 0, people_images = 0\<rparr>"

definition element_stat :: "ElemAcc \<Rightarrow> nat \<Rightarrow> string \<Rightarrow> py_error + string \<times> ElementStat" where
  "element_stat acc total' element =
     (let presence = element_presence acc element
      in bind_err (py_div (of_nat presence) (of_nat total')) (\<lambda>q.
         bind_err (if presence > 0
                   then bind_err (py_div (element_prominence_sum acc element) (of_nat presence))
                          (\<lambda>m. Inr (py_round m 2))
                   else Inr 0) (\<lambda>avg.
         Inr (element, \<lparr>presence_count = presence,
                        presence_rate = py_round (q * 100) 1,
                        avg_prominence = avg\<rparr>))))"

definition rank_key :: "string \<times> ElementStat \<Rightarrow> int \<times> rat" where
  "rank_key x = (- int (presence_count (snd x)), - avg_prominence (snd x))"

definition aggregate_segmented_elements :: "Analysis list \<Rightarrow> py_error + ElementSummary" where
  "aggregate_segmented_elements analyses =
     (let acc = fold analysis_step analyses elem_acc_init;
          total' = length analyses
      in bind_err (map_err (element_stat acc total') elements_to_track) (\<lambda>stats.
         let ranked_elements = sort_key rank_key stats
         in bind_err (if people_images acc > 0
                      then bind_err (py_div (of_int (people_count_total acc))
                                            (of_nat (people_images acc)))
                             (\<lambda>m. Inr (py_round m 1))
                      else Inr 0) (\<lambda>avg_people.
         Inr \<lparr>element_stats = stats,
              ranked_by_presence = ranked_elements,
              dominant_elements =
                map fst (filter (\<lambda>x. presence_rate (snd x) \<ge> 50) ranked_elements),
              rare_elements =
                map fst (filter (\<lambda>x. 0 < presence_rate (snd x) \<and> presence_rate (snd x) < 20)
                           ranked_elements),
              people_presence = \<lparr>images_with_people = people_images acc,
                                  avg_people_per_image = avg_people\<rparr>\<rparr>)))"

subsection \<open>Visual-feature reducer\<close>

record VisualAcc =
  all_colors :: "string list"
  color_temperatures :: "string counter"
  lighting_conditions :: "string counter"
  indoor_outdoor_counts :: "string counter"
  times_of_day :: "string counter"
  weather :: "string counter"

text \<open>
  The nested dictionaries of the result are flattened: \<open>top_colors\<close> and
  \<open>unique_colors_mentioned\<close> are the keys of \<^verbatim>\<open>color_palette\<close>, and each
  distribution stands beside its single winner.
\<close>

record VisualSummary =
  top_colors :: "string counter"
  unique_colors_mentioned :: nat
  color_temperature_distribution :: "string counter"
  color_temperature_dominant :: string
  lighting_distribution :: "string counter"
  lighting_dominant :: string
  indoor_outdoor_distribution :: "string counter"
  primary_setting :: string
  time_of_day_distribution :: "string counter"
  time_of_day_most_common :: string
  weather_distribution :: "string counter"
  weather_most_common :: string

definition get_visual :: "Analysis \<Rightarrow> VisualBlock" where
  "get_visual a = (case visual_features a of
       None \<Rightarrow> \<lparr>dominant_colors = None, color_temperature = None, lighting_condition = None,
                 indoor_outdoor = None, time_of_day = None, weather_apparent = None\<rparr>
     | Some v \<Rightarrow> v)"

definition visual_step :: "Analysis \<Rightarrow> VisualAcc \<Rightarrow> VisualAcc" where
  "visual_step a acc =
     (let visual = get_visual a
      in \<lparr>all_colors = all_colors acc @ get_list (dominant_colors visual),
          color_temperatures = incr_if (color_temperature visual) (color_temperatures acc),
          lighting_conditions = incr_if (lighting_condition visual) (lighting_conditions acc),
          indoor_outdoor_counts = incr_if (indoor_outdoor visual) (indoor_outdoor_counts acc),
          times_of_day = incr_if (time_of_day visual) (times_of_day acc),
          weather = incr_if (weather_apparent visual) (weather acc)\<rparr>)"

definition visual_acc_init :: VisualAcc where
  "visual_acc_init = \<lparr>all_colors = [], color_temperatures = [], lighting_conditions = [],
                       indoor_outdoor_counts = [], times_of_day = [], weather = []\<rparr>"

definition aggregate_visual_features :: "Analysis list \<Rightarrow> py_error + VisualSummary" where
  "aggregate_visual_features analyses =
     (let acc = fold visual_step analyses visual_acc_init;
          color_counts = Counter (all_colors acc)
      in bind_err (top_or (color_temperatures acc) ''mixed'') (\<lambda>temp.
         bind_err (top_or (lighting_conditions acc) ''varied'') (\<lambda>lighting.
         bind_err (top_or (indoor_outdoor_counts acc) ''mixed'') (\<lambda>io.
         bind_err (top_or (times_of_day acc) ''varied'') (\<lambda>tod.
         bind_err (top_or (weather acc) ''varied'') (\<lambda>w.
         Inr \<lparr>top_colors = most_common_n 8 color_counts,
              unique_colors_mentioned = length color_counts,
              color_temperature_distribution = color_temperatures acc,
              color_temperature_dominant = temp,
              lighting_distribution = lighting_conditions acc,
              lighting_dominant = lighting,
              indoor_outdoor_distribution = indoor_outdoor_counts acc,
              primary_setting = io,
              time_of_day_distribution = times_of_day acc,
              time_of_day_most_common = tod,
              weather_distribution = weather acc,
              weather_most_common = w\<rparr>))))))"

subsection \<open>Mood reducer\<close>

record MoodAcc =
  moods :: "string counter"
  energy_levels :: "string counter"
  all_tags :: "string list"

record MoodSummary =
  mood_distribution :: "string counter"
  dominant_mood :: string
  secondary_moods :: "string list"
  energy_distribution :: "string counter"
  overall_energy :: string
  top_atmosphere_tags :: "string counter"
  mood_consistency :: rat

definition get_mood :: "Analysis \<Rightarrow> MoodBlock" where
  "get_mood a = (case mood_atmosphere a of
       None \<Rightarrow> \<lparr>overall_mood = None, energy_level = None, descriptive_tags = None\<rparr>
     | Some m \<Rightarrow> m)"

definition mood_step :: "Analysis \<Rightarrow> MoodAcc \<Rightarrow> MoodAcc" where
  "mood_step a acc =
     (let mood_data = get_mood a
      in \<lparr>moods = incr_if (overall_mood mood_data) (moods acc),
          energy_levels = incr_if (energy_level mood_data) (energy_levels acc),
          all_tags = all_tags acc @ get_list (descriptive_tags mood_data)\<rparr>)"

definition mood_acc_init :: MoodAcc where
  "mood_acc_init = \<lparr>moods = [], energy_levels = [], all_tags = []\<rparr>"

definition aggregate_mood_atmosphere :: "Analysis list \<Rightarrow> py_error + MoodSummary" where
  "aggregate_mood_atmosphere analyses =
     (let acc = fold mood_step analyses mood_acc_init;
          tag_counts = Counter (all_tags acc)
      in bind_err (top_or (moods acc) ''mixed'') (\<lambda>dom_mood.
         bind_err (top_or (energy_levels acc) ''medium'') (\<lambda>energy.
         bind_err (if moods acc \<noteq> [] then
                     (case most_common_n 1 (moods acc) of
                        [] \<Rightarrow> Inl IndexError
                      | (k, n) # rest \<Rightarrow> py_div (of_nat n) (of_nat (length analyses)))
                   else Inr 0) (\<lambda>consistency.
         Inr \<lparr>mood_distribution = moods acc,
              dominant_mood = dom_mood,
              secondary_moods =
                (if length (moods acc) > 1
                 then map fst (drop 1 (most_common_n 3 (moods acc))) else []),
              energy_distribution = energy_levels acc,
              overall_energy = energy,
              top_atmosphere_tags = most_common_n 10 tag_counts,
              mood_consistency = consistency\<rparr>))))"

subsection \<open>Notable-elements reducer\<close>

record NotableSummary =
  all_notable_elements :: "string counter"
  unique_notable_count :: nat
  recurring_elements :: "string list"

definition aggregate_notable_elements :: "Analysis list \<Rightarrow> NotableSummary" where
  "aggregate_notable_elements analyses =
     (let all_notable = fold (\<lambda>a acc. acc @ get_list (notable_elements a)) analyses [];
          notable_counts = Counter all_notable
      in \<lparr>all_notable_elements = most_common_n 20 notable_counts,
          unique_notable_count = length notable_counts,
          recurring_elements = map fst (filter (\<lambda>ec. snd ec \<ge> 2) notable_counts)\<rparr>)"

subsection \<open>Synthesis projector\<close>

text \<open>
  The summaries always hold every key the projector reads, so each
  \<^verbatim>\<open>summary.get(key, default)\<close> is the field itself. Fields whose key is also a key
  of an input block carry the prefix \<open>sp_\<close>.
\<close>

record SynthesisPromptData =
  primary_scene_type :: string
  secondary_scene_types :: "string list"
  dominant_visual_elements :: "string list"
  color_palette :: "string list"
  sp_color_temperature :: string
  lighting_style :: string
  setting :: string
  sp_time_of_day :: string
  sp_dominant_mood :: string
  mood_descriptors :: "string list"
  sp_energy_level :: string
  recurring_notable_elements :: "string list"
  has_people :: bool

definition create_synthesis_prompt_data ::
  "SceneSummary \<Rightarrow> ElementSummary \<Rightarrow> VisualSummary \<Rightarrow> MoodSummary \<Rightarrow> NotableSummary
   \<Rightarrow> SynthesisPromptData" where
  "create_synthesis_prompt_data scene_s element_s visual_s mood_s notable_s =
     \<lparr>primary_scene_type = dominant_scene_type scene_s,
      secondary_scene_types = map category (take 3 (drop 1 (primary_categories scene_s))),
      dominant_visual_elements = dominant_elements element_s,
      color_palette = map fst (take 5 (top_colors visual_s)),
      sp_color_temperature = color_temperature_dominant visual_s,
      lighting_style = lighting_dominant visual_s,
      setting = primary_setting visual_s,
      sp_time_of_day = time_of_day_most_common visual_s,
      sp_dominant_mood = dominant_mood mood_s,
      mood_descriptors = secondary_moods mood_s @ map fst (take 5 (top_atmosphere_tags mood_s)),
      sp_energy_level = overall_energy mood_s,
      recurring_notable_elements = take 10 (recurring_elements notable_s),
      has_people = (images_with_people (people_presence element_s) > 0)\<rparr>"

subsection \<open>The aggregation call\<close>

record AlbumProfile =
  total_images_analyzed :: nat
  scene_summary :: SceneSummary
  element_summary :: ElementSummary
  visual_summary :: VisualSummary
  mood_summary :: MoodSummary
  notable_summary :: NotableSummary
  synthesis_prompt_data :: SynthesisPromptData

text \<open>
  The returned dictionary: \<open>Failure msg\<close> is \<^verbatim>\<open>{"success": False, "error": msg}\<close>,
  \<open>Success p\<close> the profile with \<^verbatim>\<open>"success": True\<close>.
\<close>

datatype AggregationResult = Failure string | Success AlbumProfile

text \<open>
  The validity filter: \<^verbatim>\<open>a.get("success") and a.get("analysis")\<close>; a record that
  passes contributes \<^verbatim>\<open>a["analysis"]\<close>.
\<close>

definition valid_analysis :: "ImageResult \<Rightarrow> Analysis option" where
  "valid_analysis a =
     (if truthy_bool (success a) then
        (case analysis a of
           None \<Rightarrow> None
         | Some p \<Rightarrow> if dict_nonempty p then Some p else None)
      else None)"

definition valid_analyses :: "ImageResult list \<Rightarrow> Analysis list" where
  "valid_analyses image_analyses = List.map_filter valid_analysis image_analyses"

definition aggregate_album_analysis :: "ImageResult list \<Rightarrow> py_error + AggregationResult" where
  "aggregate_album_analysis image_analyses =
     (let valid = valid_analyses image_analyses
      in if valid = [] then Inr (Failure ''No valid image analyses to aggregate'')
         else
           (let total_images = length valid
            in bind_err (aggregate_scene_classifications valid) (\<lambda>scene_s.
               bind_err (aggregate_segmented_elements valid) (\<lambda>element_s.
               bind_err (aggregate_visual_features valid) (\<lambda>visual_s.
               bind_err (aggregate_mood_atmosphere valid) (\<lambda>mood_s.
               let notable_s = aggregate_notable_elements valid
               in Inr (Success
                    \<lparr>total_images_analyzed = total_images,
                     scene_summary = scene_s,
                     element_summary = element_s,
                     visual_summary = visual_s,
                     mood_summary = mood_s,
                     notable_summary = notable_s,
                     synthesis_prompt_data =
                       create_synthesis_prompt_data scene_s element_s visual_s mood_s
                         notable_s\<rparr>)))))))"

subsection \<open>Notions used to state the properties\<close>

text \<open>
  The position at which a key is first seen in a sequence of counted keys, and the keys
  that the loops count, in the order in which they count them: a string field is
  counted when it is present and non-empty.
\<close>

definition first_seen :: "'k list \<Rightarrow> 'k \<Rightarrow> nat" where
  "first_seen ks k = length (takeWhile (\<lambda>x. x \<noteq> k) ks)"

definition opt_key :: "string option \<Rightarrow> string list" where
  "opt_key v = (case v of None \<Rightarrow> [] | Some s \<Rightarrow> if s \<noteq> [] then [s] else [])"

definition truthy_keys :: "(Analysis \<Rightarrow> string option) \<Rightarrow> Analysis list \<Rightarrow> string list" where
  "truthy_keys f analyses = concat (map (\<lambda>a. opt_key (f a)) analyses)"

definition primary_keys :: "Analysis list \<Rightarrow> string list" where
  "primary_keys analyses = truthy_keys (\<lambda>a. primary_category (get_scene a)) analyses"

definition all_keys :: "Analysis list \<Rightarrow> string list" where
  "all_keys analyses =
     concat (map (\<lambda>a. opt_key (primary_category (get_scene a))
                       @ get_list (secondary_categories (get_scene a))) analyses)"

definition all_notable_of :: "Analysis list \<Rightarrow> string list" where
  "all_notable_of analyses = concat (map (\<lambda>a. get_list (notable_elements a)) analyses)"

text \<open>The entry of a ranked list and the statistics of an element, without the error branch.\<close>

definition ranked_of :: "nat \<Rightarrow> string \<times> nat \<Rightarrow> RankedCategory" where
  "ranked_of total' kc =
     \<lparr>category = fst kc, cat_count = snd kc,
      percentage = py_round (of_nat (snd kc) / of_nat total' * 100) 1\<rparr>"

definition elem_present :: "string \<Rightarrow> Analysis \<Rightarrow> bool" where
  "elem_present element a = truthy_bool (present (get_elem (get_segments a) element))"

definition people_counted :: "Analysis \<Rightarrow> bool" where
  "people_counted a \<longleftrightarrow>
     elem_present ''people'' a \<and> get_num (count (get_elem (get_segments a) ''people'')) \<noteq> 0"

definition element_stat_of :: "ElemAcc \<Rightarrow> nat \<Rightarrow> string \<Rightarrow> string \<times> ElementStat" where
  "element_stat_of acc total' element =
     (element,
      \<lparr>presence_count = element_presence acc element,
       presence_rate = py_round (of_nat (element_presence acc element) / of_nat total' * 100) 1,
       avg_prominence =
         (if element_presence acc element > 0
          then py_round (element_prominence_sum acc element
                         / of_nat (element_presence acc element)) 2
          else 0)\<rparr>)"

definition top_of :: "string counter \<Rightarrow> string \<Rightarrow> string" where
  "top_of c fallback = (case most_common c of [] \<Rightarrow> fallback | kc # rest \<Rightarrow> fst kc)"


text \<open>The profile of a call that returned one.\<close>

definition profile_of :: "py_error + AggregationResult \<Rightarrow> AlbumProfile option" where
  "profile_of r = (case r of Inr (Success p) \<Rightarrow> Some p | _ \<Rightarrow> None)"

text \<open>
  A ranked list over a sequence of counted keys: every key seen is ranked with its number
  of occurrences, and the list is strictly sorted by descending count, equal counts by
  the position at which the category was first seen.
\<close>

definition is_ranking :: "string list \<Rightarrow> RankedCategory list \<Rightarrow> bool" where
  "is_ranking ks rs \<longleftrightarrow>
     set (map category rs) = set ks
     \<and> (\<forall>r \<in> set rs. cat_count r = count_list ks (category r))
     \<and> sorted_wrt (\<lambda>a b. cat_count a > cat_count b
                          \<or> (cat_count a = cat_count b
                              \<and> first_seen ks (category a) < first_seen ks (category b))) rs"

subsection \<open>Example inputs\<close>

definition no_keys :: Analysis where
  "no_keys = \<lparr>scene_classification = None, segmented_elements = None, visual_features = None,
              mood_atmosphere = None, notable_elements = None, other_keys = False\<rparr>"

definition image_of :: "Analysis \<Rightarrow> ImageResult" where
  "image_of a = \<lparr>success = Some True, analysis = Some a\<rparr>"

definition failed_image :: ImageResult where
  "failed_image = \<lparr>success = Some False, analysis = None\<rparr>"

definition scene_image :: "string \<Rightarrow> string list \<Rightarrow> ImageResult" where
  "scene_image p ss =
     image_of (no_keys\<lparr>scene_classification :=
       Some \<lparr>primary_category = Some p, secondary_categories = Some ss\<rparr>\<rparr>)"

definition element_image :: "string \<Rightarrow> ElemData \<Rightarrow> ImageResult" where
  "element_image e d = image_of (no_keys\<lparr>segmented_elements := Some [e \<mapsto> d]\<rparr>)"

definition notable_image :: "string list \<Rightarrow> ImageResult" where
  "notable_image ns = image_of (no_keys\<lparr>notable_elements := Some ns\<rparr>)"

text \<open>An image in which people are present, with a prominence but without a count.\<close>

definition people_without_count :: ImageResult where
  "people_without_count =
     element_image ''people'' \<lparr>present = Some True, prominence = Some (1 / 2), count = None\<rparr>"

definition sky_image :: ImageResult where
  "sky_image =
     element_image ''sky'' \<lparr>present = Some True, prominence = Some (1 / 4), count = None\<rparr>"

text \<open>An image whose payload holds none of the five blocks, only keys no reducer reads.\<close>

definition bare_image :: ImageResult where
  "bare_image = image_of (no_keys\<lparr>other_keys := True\<rparr>)"

text \<open>
  Five images whose primary categories tie: city and beach are seen twice each, city
  first; the second image also lists city as a secondary category.
\<close>

definition tie_album :: "ImageResult list" where
  "tie_album =
     [scene_image ''city'' [], scene_image ''beach'' [''city''], scene_image ''beach'' [],
      scene_image ''city'' [], scene_image ''park'' []]"

text \<open>
  One image with twenty-one distinct notable elements, each named twice and the last one
  three times.
\<close>

definition recurring_album :: "ImageResult list" where
  "recurring_album =
     [notable_image
      [''a'', ''a'', ''b'', ''b'', ''c'', ''c'', ''d'', ''d'', ''e'', ''e'', ''f'',
       ''f'', ''g'', ''g'', ''h'', ''h'', ''i'', ''i'', ''j'', ''j'', ''k'', ''k'',
       ''l'', ''l'', ''m'', ''m'', ''n'', ''n'', ''o'', ''o'', ''p'', ''p'', ''q'',
       ''q'', ''r'', ''r'', ''s'', ''s'', ''t'', ''t'', ''u'', ''u'', ''u'']]"

text \<open>An album of \<open>n\<close> images that show sky and \<open>m\<close> images without any block.\<close>

definition sky_album :: "nat \<Rightarrow> nat \<Rightarrow> ImageResult list" where
  "sky_album n m = replicate n sky_image @ replicate m bare_image"

subsection \<open>The summaries of an album without data\<close>






section \<open>Properties\<close>

subsection \<open>Errors and counters\<close>

lemma bind_err_simps [simp]: "bind_err (Inr v) f = f v" "bind_err (Inl e) f = Inl e"
  by (simp_all add: bind_err_def)

lemma py_div_Inr: "b \<noteq> 0 \<Longrightarrow> py_div a b = Inr (a / b)"
  by (simp add: py_div_def)

lemma map_err_Inr: "(\<And>x. x \<in> set xs \<Longrightarrow> f x = Inr (g x)) \<Longrightarrow> map_err f xs = Inr (map g xs)"
  by (induction xs) simp_all

lemma map_fst_counter_incr:
  "map fst (counter_incr k c) = (if k \<in> set (map fst c) then map fst c else map fst c @ [k])"
  by (induction c) force+

lemma Counter_snoc: "Counter (ks @ [k]) = counter_incr k (Counter ks)"
  by (simp add: Counter_def)

lemma Counter_append: "Counter (xs @ ys) = fold counter_incr ys (Counter xs)"
  by (simp add: Counter_def)

lemma set_keys_Counter: "set (map fst (Counter ks)) = set ks"
  by (induction ks rule: rev_induct) (auto simp: Counter_snoc map_fst_counter_incr Counter_def)

lemma distinct_keys_Counter: "distinct (map fst (Counter ks))"
  by (induction ks rule: rev_induct) (auto simp: Counter_snoc map_fst_counter_incr Counter_def)

lemma map_of_counter_incr:
  "map_of (counter_incr k c) k' =
     (if k' = k then Some (case map_of c k of None \<Rightarrow> 1 | Some n \<Rightarrow> n + 1) else map_of c k')"
  by (induction c) auto

lemma map_of_Counter:
  "map_of (Counter ks) k = (if k \<in> set ks then Some (count_list ks k) else None)"
  by (induction ks rule: rev_induct) (auto simp: Counter_snoc map_of_counter_incr Counter_def)

lemma Counter_count: "(k, n) \<in> set (Counter ks) \<Longrightarrow> n = count_list ks k \<and> k \<in> set ks"
  using map_of_Counter[of ks k] distinct_keys_Counter[of ks]
  by (auto split: if_splits)

lemma first_seen_snoc_mem: "a \<in> set ks \<Longrightarrow> first_seen (ks @ [k]) a = first_seen ks a"
  by (simp add: first_seen_def)

lemma first_seen_lt: "a \<in> set ks \<Longrightarrow> first_seen ks a < length ks"
  unfolding first_seen_def by (induction ks) auto

lemma first_seen_new: "k \<notin> set ks \<Longrightarrow> first_seen (ks @ [k]) k = length ks"
  unfolding first_seen_def by (induction ks) auto

lemma Counter_first_seen_order:
  "sorted_wrt (\<lambda>a b. first_seen ks a < first_seen ks b) (map fst (Counter ks))"
proof (induction ks rule: rev_induct)
  case Nil
  show ?case by (simp add: Counter_def)
next
  case (snoc k ks)
  have old: "sorted_wrt (\<lambda>a b. first_seen (ks @ [k]) a < first_seen (ks @ [k]) b)
               (map fst (Counter ks))"
  proof (rule sorted_wrt_mono_rel[OF _ snoc])
    fix a b assume "a \<in> set (map fst (Counter ks))" "b \<in> set (map fst (Counter ks))"
      and "first_seen ks a < first_seen ks b"
    then show "first_seen (ks @ [k]) a < first_seen (ks @ [k]) b"
      by (simp add: set_keys_Counter first_seen_snoc_mem del: set_map)
  qed
  show ?case
  proof (cases "k \<in> set ks")
    case True
    then show ?thesis using old
      by (simp add: Counter_snoc map_fst_counter_incr set_keys_Counter del: set_map)
  next
    case False
    have "\<forall>a \<in> set (map fst (Counter ks)).
            first_seen (ks @ [k]) a < first_seen (ks @ [k]) k"
      using False set_keys_Counter[of ks]
      by (auto simp: first_seen_snoc_mem first_seen_new first_seen_lt)
    then show ?thesis using old False
      by (simp add: Counter_snoc map_fst_counter_incr set_keys_Counter sorted_wrt_append
               del: set_map)
  qed
qed

subsection \<open>The scene reducer\<close>

lemma set_most_common [simp]: "set (most_common c) = set c"
  by (simp add: most_common_def)

lemma length_most_common [simp]: "length (most_common c) = length c"
  by (simp add: most_common_def)

lemma most_common_Nil [simp]: "most_common [] = []"
  by (simp add: most_common_def)

lemma most_common_Nil_iff [simp]: "most_common c = [] \<longleftrightarrow> c = []"
  using length_most_common[of c] by (metis length_0_conv)

lemma sorted_stable_lex:
  assumes "sorted (map f xs)" and "\<And>k. sorted_wrt R (filter (\<lambda>x. f x = k) xs)"
  shows "sorted_wrt (\<lambda>a b. f a < f b \<or> (f a = f b \<and> R a b)) xs"
  using assms
proof (induction xs)
  case Nil
  show ?case by simp
next
  case (Cons x xs)
  have tail: "sorted_wrt (\<lambda>a b. f a < f b \<or> (f a = f b \<and> R a b)) xs"
  proof (rule Cons.IH)
    show "sorted (map f xs)" using Cons.prems(1) by simp
    fix k
    show "sorted_wrt R (filter (\<lambda>x. f x = k) xs)"
      using Cons.prems(2)[of k] by (simp split: if_splits)
  qed
  have head: "f x < f y \<or> (f x = f y \<and> R x y)" if "y \<in> set xs" for y
  proof -
    have le: "f x \<le> f y" using Cons.prems(1) that by simp
    show ?thesis
    proof (cases "f x = f y")
      case True
      have "R x y" using Cons.prems(2)[of "f x"] that True by simp
      with True show ?thesis by simp
    next
      case False
      with le show ?thesis by simp
    qed
  qed
  show ?case using tail head by simp
qed

lemma most_common_ranking:
  "sorted_wrt (\<lambda>a b. snd a > snd b \<or> (snd a = snd b \<and> first_seen ks (fst a) < first_seen ks (fst b)))
     (most_common (Counter ks))"
proof -
  let ?f = "\<lambda>(k::'a, c::nat). - int c"
  let ?R = "\<lambda>a b. first_seen ks (fst a) < first_seen ks (fst b)"
  have ord: "sorted_wrt ?R (Counter ks)"
    using Counter_first_seen_order[of ks] by (simp add: sorted_wrt_map)
  have "sorted_wrt (\<lambda>a b. ?f a < ?f b \<or> (?f a = ?f b \<and> ?R a b)) (sort_key ?f (Counter ks))"
  proof (rule sorted_stable_lex)
    show "sorted (map ?f (sort_key ?f (Counter ks)))" by (rule sorted_sort_key)
    fix k
    show "sorted_wrt ?R (filter (\<lambda>x. ?f x = k) (sort_key ?f (Counter ks)))"
      unfolding sort_key_stable by (rule sorted_wrt_filter[OF ord])
  qed
  then show ?thesis
    unfolding most_common_def
    by (rule sorted_wrt_mono_rel[rotated]) (auto split: prod.splits)
qed

lemma fold_scene_step:
  "fold scene_step analyses (Counter ps, Counter qs) =
     (Counter (ps @ primary_keys analyses), Counter (qs @ all_keys analyses))"
proof (induction analyses arbitrary: ps qs)
  case Nil
  show ?case by (simp add: primary_keys_def all_keys_def truthy_keys_def)
next
  case (Cons a as)
  have step: "scene_step a (Counter ps, Counter qs) =
     (Counter (ps @ opt_key (primary_category (get_scene a))),
      Counter ((qs @ opt_key (primary_category (get_scene a)))
               @ get_list (secondary_categories (get_scene a))))"
    by (simp add: scene_step_def opt_key_def Counter_append Counter_snoc Let_def
          split: option.splits)
  show ?case
    unfolding fold_simps step Cons.IH
    by (simp add: primary_keys_def all_keys_def truthy_keys_def)
qed

lemma ranked_entry_Inr: "total' \<noteq> 0 \<Longrightarrow> ranked_entry total' kc = Inr (ranked_of total' kc)"
  by (simp add: ranked_entry_def ranked_of_def py_div_Inr)

lemma primary_keys_Nil [simp]: "primary_keys [] = []"
  by (simp add: primary_keys_def truthy_keys_def)

lemma all_keys_Nil [simp]: "all_keys [] = []"
  by (simp add: all_keys_def)

lemma Counter_Nil [simp]: "Counter [] = []"
  by (simp add: Counter_def)

lemma ranked_entries_Inr:
  "(analyses = [] \<longrightarrow> ks = []) \<Longrightarrow>
   map_err (ranked_entry (length analyses)) (most_common (Counter ks))
     = Inr (map (ranked_of (length analyses)) (most_common (Counter ks)))"
proof (cases "analyses = []")
  case True
  assume "analyses = [] \<longrightarrow> ks = []"
  with True show ?thesis by (simp add: most_common_def)
next
  case False
  then show ?thesis by (intro map_err_Inr ranked_entry_Inr) simp
qed

lemma scene_closed_form:
  "aggregate_scene_classifications analyses =
     Inr \<lparr>primary_categories =
            map (ranked_of (length analyses)) (most_common (Counter (primary_keys analyses))),
          all_categories =
            map (ranked_of (length analyses)) (most_common (Counter (all_keys analyses))),
          dominant_scene_type = top_of (Counter (primary_keys analyses)) ''mixed'',
          scene_diversity = length (Counter (primary_keys analyses))\<rparr>"
proof -
  have f: "fold scene_step analyses ([], []) =
      (Counter (primary_keys analyses), Counter (all_keys analyses))"
    using fold_scene_step[of analyses "[]" "[]"] by simp
  have p: "map_err (ranked_entry (length analyses)) (most_common (Counter (primary_keys analyses)))
     = Inr (map (ranked_of (length analyses)) (most_common (Counter (primary_keys analyses))))"
    by (rule ranked_entries_Inr) simp
  have q: "map_err (ranked_entry (length analyses)) (most_common (Counter (all_keys analyses)))
     = Inr (map (ranked_of (length analyses)) (most_common (Counter (all_keys analyses))))"
    by (rule ranked_entries_Inr) simp
  show ?thesis
    unfolding aggregate_scene_classifications_def f Let_def fst_conv snd_conv p q bind_err_simps
    by (cases "most_common (Counter (primary_keys analyses))") (simp_all add: top_of_def ranked_of_def)
qed

subsection \<open>The element reducer\<close>

lemma elem_step_presence:
  "element_presence (elem_step seg e acc) e' =
     element_presence acc e' + (if e' = e \<and> truthy_bool (present (get_elem seg e)) then 1 else 0)"
  by (simp add: elem_step_def Let_def)

lemma elem_step_people_images:
  "people_images (elem_step seg e acc) =
     people_images acc + (if e = ''people'' \<and> truthy_bool (present (get_elem seg e))
                             \<and> get_num (count (get_elem seg e)) \<noteq> 0 then 1 else 0)"
  by (simp add: elem_step_def Let_def)

lemma fold_elem_step_presence:
  "distinct es \<Longrightarrow>
   element_presence (fold (elem_step seg) es acc) e' =
     element_presence acc e' + (if e' \<in> set es \<and> truthy_bool (present (get_elem seg e')) then 1 else 0)"
  by (induction es arbitrary: acc) (auto simp: elem_step_presence)

lemma fold_elem_step_people_images:
  "distinct es \<Longrightarrow>
   people_images (fold (elem_step seg) es acc) =
     people_images acc + (if ''people'' \<in> set es \<and> truthy_bool (present (get_elem seg ''people''))
                             \<and> get_num (count (get_elem seg ''people'')) \<noteq> 0 then 1 else 0)"
  by (induction es arbitrary: acc) (auto simp: elem_step_people_images)

lemma distinct_elements_to_track: "distinct elements_to_track"
  by (simp add: elements_to_track_def)

lemma people_tracked: "''people'' \<in> set elements_to_track"
  by (simp add: elements_to_track_def)

lemma analysis_step_presence:
  "element_presence (analysis_step a acc) e =
     element_presence acc e + (if e \<in> set elements_to_track \<and> elem_present e a then 1 else 0)"
  unfolding analysis_step_def elem_present_def
  by (rule fold_elem_step_presence[OF distinct_elements_to_track])

lemma analysis_step_people_images:
  "people_images (analysis_step a acc) = people_images acc + (if people_counted a then 1 else 0)"
  unfolding analysis_step_def people_counted_def elem_present_def
  using fold_elem_step_people_images[OF distinct_elements_to_track, of "get_segments a" acc] people_tracked
  by simp

lemma fold_analysis_step_presence:
  "element_presence (fold analysis_step analyses acc) e =
     element_presence acc e
     + (if e \<in> set elements_to_track then length (filter (elem_present e) analyses) else 0)"
  by (induction analyses arbitrary: acc) (simp_all add: analysis_step_presence)

lemma fold_analysis_step_people_images:
  "people_images (fold analysis_step analyses acc) =
     people_images acc + length (filter people_counted analyses)"
  by (induction analyses arbitrary: acc) (simp_all add: analysis_step_people_images)

lemma presence_tracked:
  "e \<in> set elements_to_track \<Longrightarrow>
   element_presence (fold analysis_step analyses elem_acc_init) e
     = length (filter (elem_present e) analyses)"
  by (simp add: fold_analysis_step_presence elem_acc_init_def)

lemma people_images_eq:
  "people_images (fold analysis_step analyses elem_acc_init) = length (filter people_counted analyses)"
  by (simp add: fold_analysis_step_people_images elem_acc_init_def)

lemma element_stat_Inr:
  "total' \<noteq> 0 \<Longrightarrow> element_stat acc total' e = Inr (element_stat_of acc total' e)"
  by (simp add: element_stat_def element_stat_of_def py_div_Inr Let_def)

lemma elements_closed_form:
  assumes "analyses \<noteq> []"
  shows "aggregate_segmented_elements analyses =
     (let acc = fold analysis_step analyses elem_acc_init;
          stats = map (element_stat_of acc (length analyses)) elements_to_track
      in Inr \<lparr>element_stats = stats,
              ranked_by_presence = sort_key rank_key stats,
              dominant_elements =
                map fst (filter (\<lambda>x. presence_rate (snd x) \<ge> 50) (sort_key rank_key stats)),
              rare_elements =
                map fst (filter (\<lambda>x. 0 < presence_rate (snd x) \<and> presence_rate (snd x) < 20)
                           (sort_key rank_key stats)),
              people_presence =
                \<lparr>images_with_people = people_images acc,
                 avg_people_per_image =
                   (if people_images acc > 0
                    then py_round (of_int (people_count_total acc) / of_nat (people_images acc)) 1
                    else 0)\<rparr>\<rparr>)"
proof -
  have m: "map_err (element_stat acc (length analyses)) elements_to_track
      = Inr (map (element_stat_of acc (length analyses)) elements_to_track)" for acc
    using assms by (intro map_err_Inr element_stat_Inr) simp
  show ?thesis
    unfolding aggregate_segmented_elements_def Let_def m bind_err_simps
    by (simp add: py_div_Inr)
qed

subsection \<open>The visual, mood and notable reducers\<close>

lemma top_or_Inr: "top_or c fallback = Inr (top_of c fallback)"
  by (cases "most_common c")
     (auto simp: top_or_def top_of_def most_common_n_def split: list.splits prod.splits)

lemma top_of_Nil [simp]: "top_of [] fallback = fallback"
  by (simp add: top_of_def)

lemma top_of_mem: "c \<noteq> [] \<Longrightarrow> top_of c fallback \<in> fst ` set c"
proof -
  assume "c \<noteq> []"
  then obtain kc rest where mc: "most_common c = kc # rest"
    by (cases "most_common c") auto
  then have "kc \<in> set (most_common c)" by simp
  then have "kc \<in> set c" by simp
  with mc show ?thesis by (auto simp: top_of_def)
qed

lemma fold_incr_if:
  "fold (\<lambda>a. incr_if (f a)) analyses (Counter ks) = Counter (ks @ truthy_keys f analyses)"
proof (induction analyses arbitrary: ks)
  case Nil
  show ?case by (simp add: truthy_keys_def)
next
  case (Cons a as)
  have step: "incr_if (f a) (Counter ks) = Counter (ks @ opt_key (f a))"
    by (simp add: incr_if_def opt_key_def Counter_snoc split: option.splits)
  show ?case
    unfolding fold_simps step Cons.IH by (simp add: truthy_keys_def)
qed

lemma truthy_keys_nonempty: "k \<in> set (truthy_keys f analyses) \<Longrightarrow> k \<noteq> []"
  by (auto simp: truthy_keys_def opt_key_def split: option.splits if_splits)

lemma truthy_keys_none:
  "(\<forall>a \<in> set analyses. \<not> truthy_str (f a)) \<Longrightarrow> truthy_keys f analyses = []"
  by (auto simp: truthy_keys_def opt_key_def truthy_str_def split: option.splits)

lemma top_of_Counter_truthy: "top_of (Counter (truthy_keys f analyses)) fallback \<noteq> [] \<or> fallback = []"
proof (cases "Counter (truthy_keys f analyses) = []")
  case True
  then show ?thesis by simp
next
  case False
  from top_of_mem[OF False, of fallback]
  have "top_of (Counter (truthy_keys f analyses)) fallback \<in> set (map fst (Counter (truthy_keys f analyses)))"
    by simp
  then have "top_of (Counter (truthy_keys f analyses)) fallback \<in> set (truthy_keys f analyses)"
    unfolding set_keys_Counter .
  then show ?thesis using truthy_keys_nonempty by blast
qed

lemma fold_visual_step:
  "fold visual_step analyses
     \<lparr>all_colors = cs, color_temperatures = Counter k1, lighting_conditions = Counter k2,
      indoor_outdoor_counts = Counter k3, times_of_day = Counter k4, weather = Counter k5\<rparr> =
     \<lparr>all_colors = cs @ concat (map (\<lambda>a. get_list (dominant_colors (get_visual a))) analyses),
      color_temperatures = Counter (k1 @ truthy_keys (\<lambda>a. color_temperature (get_visual a)) analyses),
      lighting_conditions = Counter (k2 @ truthy_keys (\<lambda>a. lighting_condition (get_visual a)) analyses),
      indoor_outdoor_counts = Counter (k3 @ truthy_keys (\<lambda>a. indoor_outdoor (get_visual a)) analyses),
      times_of_day = Counter (k4 @ truthy_keys (\<lambda>a. time_of_day (get_visual a)) analyses),
      weather = Counter (k5 @ truthy_keys (\<lambda>a. weather_apparent (get_visual a)) analyses)\<rparr>"
proof (induction analyses arbitrary: cs k1 k2 k3 k4 k5)
  case Nil
  show ?case by (simp add: truthy_keys_def)
next
  case (Cons a as)
  have step: "incr_if v (Counter ks) = Counter (ks @ opt_key v)" for v ks
    by (simp add: incr_if_def opt_key_def Counter_snoc split: option.splits)
  have vs: "visual_step a
     \<lparr>all_colors = cs, color_temperatures = Counter k1, lighting_conditions = Counter k2,
      indoor_outdoor_counts = Counter k3, times_of_day = Counter k4, weather = Counter k5\<rparr> =
     \<lparr>all_colors = cs @ get_list (dominant_colors (get_visual a)),
      color_temperatures = Counter (k1 @ opt_key (color_temperature (get_visual a))),
      lighting_conditions = Counter (k2 @ opt_key (lighting_condition (get_visual a))),
      indoor_outdoor_counts = Counter (k3 @ opt_key (indoor_outdoor (get_visual a))),
      times_of_day = Counter (k4 @ opt_key (time_of_day (get_visual a))),
      weather = Counter (k5 @ opt_key (weather_apparent (get_visual a)))\<rparr>"
    by (simp add: visual_step_def Let_def step)
  show ?case
    unfolding fold_simps vs Cons.IH by (simp add: truthy_keys_def)
qed

lemma fold_mood_step:
  "fold mood_step analyses \<lparr>moods = Counter k1, energy_levels = Counter k2, all_tags = ts\<rparr> =
     \<lparr>moods = Counter (k1 @ truthy_keys (\<lambda>a. overall_mood (get_mood a)) analyses),
      energy_levels = Counter (k2 @ truthy_keys (\<lambda>a. energy_level (get_mood a)) analyses),
      all_tags = ts @ concat (map (\<lambda>a. get_list (descriptive_tags (get_mood a))) analyses)\<rparr>"
proof (induction analyses arbitrary: ts k1 k2)
  case Nil
  show ?case by (simp add: truthy_keys_def)
next
  case (Cons a as)
  have step: "incr_if v (Counter ks) = Counter (ks @ opt_key v)" for v ks
    by (simp add: incr_if_def opt_key_def Counter_snoc split: option.splits)
  have ms: "mood_step a \<lparr>moods = Counter k1, energy_levels = Counter k2, all_tags = ts\<rparr> =
     \<lparr>moods = Counter (k1 @ opt_key (overall_mood (get_mood a))),
      energy_levels = Counter (k2 @ opt_key (energy_level (get_mood a))),
      all_tags = ts @ get_list (descriptive_tags (get_mood a))\<rparr>"
    by (simp add: mood_step_def Let_def step)
  show ?case
    unfolding fold_simps ms Cons.IH by (simp add: truthy_keys_def)
qed

lemma visual_dominants:
  "\<exists>s. aggregate_visual_features analyses = Inr s
     \<and> color_temperature_dominant s
         = top_of (Counter (truthy_keys (\<lambda>a. color_temperature (get_visual a)) analyses)) ''mixed''
     \<and> lighting_dominant s
         = top_of (Counter (truthy_keys (\<lambda>a. lighting_condition (get_visual a)) analyses)) ''varied''
     \<and> primary_setting s
         = top_of (Counter (truthy_keys (\<lambda>a. indoor_outdoor (get_visual a)) analyses)) ''mixed''
     \<and> time_of_day_most_common s
         = top_of (Counter (truthy_keys (\<lambda>a. time_of_day (get_visual a)) analyses)) ''varied''
     \<and> weather_most_common s
         = top_of (Counter (truthy_keys (\<lambda>a. weather_apparent (get_visual a)) analyses)) ''varied''"
proof -
  have f: "fold visual_step analyses visual_acc_init =
     \<lparr>all_colors = concat (map (\<lambda>a. get_list (dominant_colors (get_visual a))) analyses),
      color_temperatures = Counter (truthy_keys (\<lambda>a. color_temperature (get_visual a)) analyses),
      lighting_conditions = Counter (truthy_keys (\<lambda>a. lighting_condition (get_visual a)) analyses),
      indoor_outdoor_counts = Counter (truthy_keys (\<lambda>a. indoor_outdoor (get_visual a)) analyses),
      times_of_day = Counter (truthy_keys (\<lambda>a. time_of_day (get_visual a)) analyses),
      weather = Counter (truthy_keys (\<lambda>a. weather_apparent (get_visual a)) analyses)\<rparr>"
    using fold_visual_step[of analyses "[]" "[]" "[]" "[]" "[]" "[]"]
    by (simp add: visual_acc_init_def)
  show ?thesis
    unfolding aggregate_visual_features_def f Let_def top_or_Inr bind_err_simps
    by simp
qed

lemma mood_dominants:
  "\<exists>s. aggregate_mood_atmosphere analyses = Inr s
     \<and> dominant_mood s
         = top_of (Counter (truthy_keys (\<lambda>a. overall_mood (get_mood a)) analyses)) ''mixed''
     \<and> overall_energy s
         = top_of (Counter (truthy_keys (\<lambda>a. energy_level (get_mood a)) analyses)) ''medium''"
proof -
  have f: "fold mood_step analyses mood_acc_init =
     \<lparr>moods = Counter (truthy_keys (\<lambda>a. overall_mood (get_mood a)) analyses),
      energy_levels = Counter (truthy_keys (\<lambda>a. energy_level (get_mood a)) analyses),
      all_tags = concat (map (\<lambda>a. get_list (descriptive_tags (get_mood a))) analyses)\<rparr>"
    using fold_mood_step[of analyses "[]" "[]" "[]"] by (simp add: mood_acc_init_def)
  let ?m = "Counter (truthy_keys (\<lambda>a. overall_mood (get_mood a)) analyses)"
  have c: "\<exists>q. (if ?m \<noteq> [] then
                     (case most_common_n 1 ?m of
                        [] \<Rightarrow> Inl IndexError
                      | (k, n) # rest \<Rightarrow> py_div (of_nat n) (of_nat (length analyses)))
                   else Inr 0) = Inr q"
  proof (cases "?m = []")
    case True
    then show ?thesis by simp
  next
    case False
    then have ne: "analyses \<noteq> []" by (auto simp: truthy_keys_def)
    from False obtain kc rest where mc: "most_common ?m = kc # rest"
      by (cases "most_common ?m") auto
    show ?thesis using False ne mc
      by (cases kc) (simp add: most_common_n_def py_div_Inr)
  qed
  then obtain q where q: "(if ?m \<noteq> [] then
                     (case most_common_n 1 ?m of
                        [] \<Rightarrow> Inl IndexError
                      | (k, n) # rest \<Rightarrow> py_div (of_nat n) (of_nat (length analyses)))
                   else Inr 0) = Inr q" ..
  show ?thesis
    unfolding aggregate_mood_atmosphere_def f Let_def top_or_Inr bind_err_simps
    by (simp only: MoodAcc.simps q bind_err_simps) simp
qed

lemma fold_extend:
  "fold (\<lambda>a acc. acc @ g a) analyses acc0 = acc0 @ concat (map g analyses)"
  by (induction analyses arbitrary: acc0) simp_all

lemma notable_closed_form:
  "aggregate_notable_elements analyses =
     \<lparr>all_notable_elements = most_common_n 20 (Counter (all_notable_of analyses)),
      unique_notable_count = length (Counter (all_notable_of analyses)),
      recurring_elements =
        map fst (filter (\<lambda>ec. snd ec \<ge> 2) (Counter (all_notable_of analyses)))\<rparr>"
  by (simp add: aggregate_notable_elements_def all_notable_of_def fold_extend Let_def)

subsection \<open>Rounding, and the structure of the aggregation call\<close>





lemma py_round_zero [simp]: "py_round 0 n = 0"
  by (simp add: py_round_def round_half_even_def)


lemma aggregate_Failure:
  "valid_analyses xs = [] \<Longrightarrow>
   aggregate_album_analysis xs = Inr (Failure ''No valid image analyses to aggregate'')"
  by (simp add: aggregate_album_analysis_def)

lemma scene_total: "\<exists>s. aggregate_scene_classifications analyses = Inr s"
  by (simp add: scene_closed_form)

lemma elements_total: "analyses \<noteq> [] \<Longrightarrow> \<exists>s. aggregate_segmented_elements analyses = Inr s"
  by (simp add: elements_closed_form Let_def)

lemma visual_total: "\<exists>s. aggregate_visual_features analyses = Inr s"
  using visual_dominants[of analyses] by blast

lemma mood_total: "\<exists>s. aggregate_mood_atmosphere analyses = Inr s"
  using mood_dominants[of analyses] by blast

lemma aggregate_Success:
  assumes "valid_analyses xs \<noteq> []"
  shows "\<exists>p. aggregate_album_analysis xs = Inr (Success p)
           \<and> total_images_analyzed p = length (valid_analyses xs)
           \<and> aggregate_scene_classifications (valid_analyses xs) = Inr (scene_summary p)
           \<and> aggregate_segmented_elements (valid_analyses xs) = Inr (element_summary p)
           \<and> aggregate_visual_features (valid_analyses xs) = Inr (visual_summary p)
           \<and> aggregate_mood_atmosphere (valid_analyses xs) = Inr (mood_summary p)
           \<and> notable_summary p = aggregate_notable_elements (valid_analyses xs)
           \<and> synthesis_prompt_data p =
               create_synthesis_prompt_data (scene_summary p) (element_summary p)
                 (visual_summary p) (mood_summary p) (notable_summary p)"
proof -
  obtain sc where sc: "aggregate_scene_classifications (valid_analyses xs) = Inr sc"
    using scene_total by blast
  obtain el where el: "aggregate_segmented_elements (valid_analyses xs) = Inr el"
    using elements_total[OF assms] by blast
  obtain vi where vi: "aggregate_visual_features (valid_analyses xs) = Inr vi"
    using visual_total by blast
  obtain mo where mo: "aggregate_mood_atmosphere (valid_analyses xs) = Inr mo"
    using mood_total by blast
  show ?thesis
    unfolding aggregate_album_analysis_def Let_def sc el vi mo bind_err_simps
    using assms by simp
qed

subsection \<open>The validity filter, the people counter, determinism\<close>



lemma elements_fields:
  assumes "analyses \<noteq> []" and "aggregate_segmented_elements analyses = Inr s"
  shows "element_stats s =
           map (element_stat_of (fold analysis_step analyses elem_acc_init) (length analyses))
             elements_to_track"
    and "ranked_by_presence s = sort_key rank_key (element_stats s)"
    and "dominant_elements s =
           map fst (filter (\<lambda>x. presence_rate (snd x) \<ge> 50) (ranked_by_presence s))"
    and "rare_elements s =
           map fst (filter (\<lambda>x. 0 < presence_rate (snd x) \<and> presence_rate (snd x) < 20)
                      (ranked_by_presence s))"
    and "images_with_people (people_presence s) = length (filter people_counted analyses)"
proof -
  note cf = assms(2)[unfolded elements_closed_form[OF assms(1)] Let_def sum.inject, symmetric]
  show "element_stats s =
           map (element_stat_of (fold analysis_step analyses elem_acc_init) (length analyses))
             elements_to_track"
    by (subst cf) simp
  show "ranked_by_presence s = sort_key rank_key (element_stats s)"
    by (subst (1 2) cf) simp
  show "dominant_elements s =
           map fst (filter (\<lambda>x. presence_rate (snd x) \<ge> 50) (ranked_by_presence s))"
    by (subst (1 2) cf) simp
  show "rare_elements s =
           map fst (filter (\<lambda>x. 0 < presence_rate (snd x) \<and> presence_rate (snd x) < 20)
                      (ranked_by_presence s))"
    by (subst (1 2) cf) simp
  show "images_with_people (people_presence s) = length (filter people_counted analyses)"
    by (subst cf) (simp add: people_images_eq)
qed


lemma profile_of_Success:
  "valid_analyses xs \<noteq> [] \<Longrightarrow> \<exists>p. profile_of (aggregate_album_analysis xs) = Some p
     \<and> aggregate_album_analysis xs = Inr (Success p)"
  using aggregate_Success[of xs] by (auto simp: profile_of_def)

lemma valid_analyses_Cons:
  "valid_analyses (x # xs) =
     (case valid_analysis x of None \<Rightarrow> valid_analyses xs | Some a \<Rightarrow> a # valid_analyses xs)"
  by (simp add: valid_analyses_def map_filter_simps split: option.splits)

lemma valid_analyses_Nil [simp]: "valid_analyses [] = []"
  by (simp add: valid_analyses_def map_filter_simps)

lemma valid_analysis_image_of:
  "valid_analysis (image_of a) = (if dict_nonempty a then Some a else None)"
  by (simp add: valid_analysis_def image_of_def truthy_bool_def)

lemma valid_analysis_failed [simp]: "valid_analysis failed_image = None"
  by (simp add: valid_analysis_def failed_image_def truthy_bool_def)



lemma has_people_iff:
  assumes "valid_analyses xs \<noteq> []"
  shows "\<exists>p. aggregate_album_analysis xs = Inr (Success p)
     \<and> images_with_people (people_presence (element_summary p))
         = length (filter people_counted (valid_analyses xs))
     \<and> (has_people (synthesis_prompt_data p) \<longleftrightarrow> (\<exists>a \<in> set (valid_analyses xs). people_counted a))"
proof -
  from aggregate_Success[OF assms] obtain p where p:
    "aggregate_album_analysis xs = Inr (Success p)"
    "aggregate_segmented_elements (valid_analyses xs) = Inr (element_summary p)"
    "synthesis_prompt_data p =
       create_synthesis_prompt_data (scene_summary p) (element_summary p)
         (visual_summary p) (mood_summary p) (notable_summary p)" by blast
  have n: "images_with_people (people_presence (element_summary p))
         = length (filter people_counted (valid_analyses xs))"
    by (rule elements_fields(5)[OF assms p(2)])
  have "has_people (synthesis_prompt_data p)
      \<longleftrightarrow> images_with_people (people_presence (element_summary p)) > 0"
    unfolding p(3) by (simp add: create_synthesis_prompt_data_def)
  then show ?thesis using p(1) n by (auto simp: filter_empty_conv)
qed

lemma map_of_element_stats:
  "e \<in> set es \<Longrightarrow>
   map_of (map (element_stat_of acc t) es) e = Some (snd (element_stat_of acc t e))"
  by (induction es) (auto simp: element_stat_of_def)

lemma people_presence_count:
  assumes "valid_analyses xs \<noteq> []" and "aggregate_album_analysis xs = Inr (Success p)"
    and "e \<in> set elements_to_track"
  shows "map_option presence_count (map_of (element_stats (element_summary p)) e)
           = Some (length (filter (elem_present e) (valid_analyses xs)))"
proof -
  from aggregate_Success[OF assms(1)] assms(2)
  have el: "aggregate_segmented_elements (valid_analyses xs) = Inr (element_summary p)" by auto
  show ?thesis
    unfolding elements_fields(1)[OF assms(1) el] map_of_element_stats[OF assms(3)]
    by (simp add: element_stat_of_def presence_tracked[OF assms(3)])
qed



subsection \<open>Rankings and element statistics\<close>

lemma is_ranking_most_common:
  "is_ranking ks (map (ranked_of t) (most_common (Counter ks)))"
proof -
  have keys: "set (map category (map (ranked_of t) (most_common (Counter ks)))) = set ks"
  proof -
    have "map category (map (ranked_of t) (most_common (Counter ks)))
        = map fst (most_common (Counter ks))"
      by (simp add: ranked_of_def)
    also have "set \<dots> = set (map fst (Counter ks))" by simp
    finally show ?thesis by (simp only: set_keys_Counter)
  qed
  have counts: "\<forall>r \<in> set (map (ranked_of t) (most_common (Counter ks))).
                  cat_count r = count_list ks (category r)"
    using Counter_count[of _ _ ks] by (auto simp: ranked_of_def)
  have "sorted_wrt (\<lambda>a b. cat_count (ranked_of t a) > cat_count (ranked_of t b)
           \<or> (cat_count (ranked_of t a) = cat_count (ranked_of t b)
               \<and> first_seen ks (category (ranked_of t a)) < first_seen ks (category (ranked_of t b))))
          (most_common (Counter ks))"
    using most_common_ranking[of ks] by (simp add: ranked_of_def)
  then have order: "sorted_wrt (\<lambda>a b. cat_count a > cat_count b
           \<or> (cat_count a = cat_count b
               \<and> first_seen ks (category a) < first_seen ks (category b)))
          (map (ranked_of t) (most_common (Counter ks)))"
    by (simp only: sorted_wrt_map)
  show ?thesis unfolding is_ranking_def using keys counts order by blast
qed

lemma scene_fields:
  assumes "aggregate_scene_classifications analyses = Inr s"
  shows "primary_categories s =
           map (ranked_of (length analyses)) (most_common (Counter (primary_keys analyses)))"
    and "all_categories s =
           map (ranked_of (length analyses)) (most_common (Counter (all_keys analyses)))"
    and "dominant_scene_type s = top_of (Counter (primary_keys analyses)) ''mixed''"
    and "scene_diversity s = length (Counter (primary_keys analyses))"
proof -
  note cf = assms[unfolded scene_closed_form sum.inject, symmetric]
  show "primary_categories s =
           map (ranked_of (length analyses)) (most_common (Counter (primary_keys analyses)))"
    by (subst cf) simp
  show "all_categories s =
           map (ranked_of (length analyses)) (most_common (Counter (all_keys analyses)))"
    by (subst cf) simp
  show "dominant_scene_type s = top_of (Counter (primary_keys analyses)) ''mixed''"
    by (subst cf) simp
  show "scene_diversity s = length (Counter (primary_keys analyses))"
    by (subst cf) simp
qed

text \<open>
  C8: in the two ranked lists of the scene reducer (primary-only and combined) every
  category seen is ranked once with its count, and the list is sorted by descending count,
  categories of equal count in the order in which they were first seen in the input.
\<close>

theorem scene_rankings_first_seen:
  "\<exists>s. aggregate_scene_classifications analyses = Inr s
     \<and> is_ranking (primary_keys analyses) (primary_categories s)
     \<and> is_ranking (all_keys analyses) (all_categories s)"
proof -
  obtain s where s: "aggregate_scene_classifications analyses = Inr s"
    using scene_total by blast
  have "is_ranking (primary_keys analyses) (primary_categories s)"
    unfolding scene_fields(1)[OF s] by (rule is_ranking_most_common)
  moreover have "is_ranking (all_keys analyses) (all_categories s)"
    unfolding scene_fields(2)[OF s] by (rule is_ranking_most_common)
  ultimately show ?thesis using s by blast
qed



lemma stat_lookup:
  assumes "analyses \<noteq> []" and "aggregate_segmented_elements analyses = Inr s"
    and "e \<in> set elements_to_track"
  shows "\<exists>st. map_of (element_stats s) e = Some st \<and> (e, st) \<in> set (element_stats s)
     \<and> presence_count st = length (filter (elem_present e) analyses)
     \<and> presence_rate st = py_round (of_nat (presence_count st) / of_nat (length analyses) * 100) 1
     \<and> (presence_count st = 0 \<longrightarrow> avg_prominence st = 0)"
proof -
  let ?acc = "fold analysis_step analyses elem_acc_init"
  let ?st = "snd (element_stat_of ?acc (length analyses) e)"
  have m: "map_of (element_stats s) e = Some ?st"
    unfolding elements_fields(1)[OF assms(1,2)] by (rule map_of_element_stats[OF assms(3)])
  have "(e, ?st) \<in> set (element_stats s)" by (rule map_of_SomeD[OF m])
  then show ?thesis using m
    by (simp add: element_stat_of_def presence_tracked[OF assms(3)])
qed

lemma stats_entries:
  assumes "analyses \<noteq> []" and "aggregate_segmented_elements analyses = Inr s"
    and "x \<in> set (element_stats s)"
  shows "fst x \<in> set elements_to_track
     \<and> presence_count (snd x) = length (filter (elem_present (fst x)) analyses)
     \<and> presence_rate (snd x)
         = py_round (of_nat (presence_count (snd x)) / of_nat (length analyses) * 100) 1
     \<and> (presence_count (snd x) = 0 \<longrightarrow> avg_prominence (snd x) = 0)"
proof -
  from assms(3) obtain e where e: "e \<in> set elements_to_track"
    "x = element_stat_of (fold analysis_step analyses elem_acc_init) (length analyses) e"
    unfolding elements_fields(1)[OF assms(1,2)] by auto
  show ?thesis unfolding e(2) using e(1)
    by (simp add: element_stat_of_def presence_tracked[OF e(1)])
qed

lemma valid_analyses_scene_image [simp]:
  "valid_analysis (scene_image p ss) =
     Some (no_keys\<lparr>scene_classification :=
             Some \<lparr>primary_category = Some p, secondary_categories = Some ss\<rparr>\<rparr>)"
  by (simp add: scene_image_def valid_analysis_image_of dict_nonempty_def)

lemma get_scene_scene [simp]:
  "get_scene (no_keys\<lparr>scene_classification := Some b\<rparr>) = b"
  by (simp add: get_scene_def)

theorem scene_rankings_first_seen_witness:
  "\<exists>s. aggregate_scene_classifications (valid_analyses tie_album) = Inr s
     \<and> is_ranking (primary_keys (valid_analyses tie_album)) (primary_categories s)
     \<and> is_ranking (all_keys (valid_analyses tie_album)) (all_categories s)
     \<and> map category (primary_categories s) = [''city'', ''beach'', ''park'']
     \<and> map cat_count (primary_categories s) = [2, 2, 1]"
proof -
  from scene_rankings_first_seen[of "valid_analyses tie_album"] obtain s where s:
    "aggregate_scene_classifications (valid_analyses tie_album) = Inr s"
    "is_ranking (primary_keys (valid_analyses tie_album)) (primary_categories s)"
    "is_ranking (all_keys (valid_analyses tie_album)) (all_categories s)" by blast
  have k: "primary_keys (valid_analyses tie_album)
      = [''city'', ''beach'', ''beach'', ''city'', ''park'']"
    by (simp add: tie_album_def valid_analyses_Cons primary_keys_def truthy_keys_def opt_key_def)
  have c: "Counter [''city'', ''beach'', ''beach'', ''city'', ''park'']
      = [(''city'', 2), (''beach'', 2), (''park'', 1)]"
    by (simp add: Counter_def)
  have m: "most_common [(''city'', 2), (''beach'', 2), (''park'', 1)]
      = [(''city'', 2), (''beach'', 2), (''park'', 1::nat)]"
    by (simp add: most_common_def)
  have r: "map category (primary_categories s) = [''city'', ''beach'', ''park'']"
    "map cat_count (primary_categories s) = [2, 2, 1]"
    unfolding scene_fields(1)[OF s(1)] k c m by (simp_all add: ranked_of_def)
  show ?thesis
    by (intro exI[of _ s] conjI) (rule s r)+
qed

subsection \<open>The percentage law\<close>




lemma aggregate_parts:
  assumes "aggregate_album_analysis xs = Inr (Success p)"
  shows "valid_analyses xs \<noteq> []"
    and "aggregate_scene_classifications (valid_analyses xs) = Inr (scene_summary p)"
    and "aggregate_segmented_elements (valid_analyses xs) = Inr (element_summary p)"
    and "aggregate_visual_features (valid_analyses xs) = Inr (visual_summary p)"
    and "aggregate_mood_atmosphere (valid_analyses xs) = Inr (mood_summary p)"
    and "notable_summary p = aggregate_notable_elements (valid_analyses xs)"
    and "synthesis_prompt_data p =
           create_synthesis_prompt_data (scene_summary p) (element_summary p)
             (visual_summary p) (mood_summary p) (notable_summary p)"
proof -
  show ne: "valid_analyses xs \<noteq> []"
    using assms aggregate_Failure[of xs] by auto
  from aggregate_Success[OF ne] obtain q where q:
    "aggregate_album_analysis xs = Inr (Success q)"
    "aggregate_scene_classifications (valid_analyses xs) = Inr (scene_summary q)"
    "aggregate_segmented_elements (valid_analyses xs) = Inr (element_summary q)"
    "aggregate_visual_features (valid_analyses xs) = Inr (visual_summary q)"
    "aggregate_mood_atmosphere (valid_analyses xs) = Inr (mood_summary q)"
    "notable_summary q = aggregate_notable_elements (valid_analyses xs)"
    "synthesis_prompt_data q =
           create_synthesis_prompt_data (scene_summary q) (element_summary q)
             (visual_summary q) (mood_summary q) (notable_summary q)" by blast
  have "q = p" using assms q(1) by simp
  with q show "aggregate_scene_classifications (valid_analyses xs) = Inr (scene_summary p)"
    "aggregate_segmented_elements (valid_analyses xs) = Inr (element_summary p)"
    "aggregate_visual_features (valid_analyses xs) = Inr (visual_summary p)"
    "aggregate_mood_atmosphere (valid_analyses xs) = Inr (mood_summary p)"
    "notable_summary p = aggregate_notable_elements (valid_analyses xs)"
    "synthesis_prompt_data p =
           create_synthesis_prompt_data (scene_summary p) (element_summary p)
             (visual_summary p) (mood_summary p) (notable_summary p)"
    by simp_all
qed

lemma valid_analysis_element_image [simp]:
  "valid_analysis (element_image e d) = Some (no_keys\<lparr>segmented_elements := Some [e \<mapsto> d]\<rparr>)"
  by (simp add: element_image_def valid_analysis_image_of dict_nonempty_def)

lemma valid_analysis_notable_image [simp]:
  "valid_analysis (notable_image ns) = Some (no_keys\<lparr>notable_elements := Some ns\<rparr>)"
  by (simp add: notable_image_def valid_analysis_image_of dict_nonempty_def)

lemma valid_analysis_bare_image [simp]:
  "valid_analysis bare_image = Some (no_keys\<lparr>other_keys := True\<rparr>)"
  by (simp add: bare_image_def valid_analysis_image_of dict_nonempty_def)

lemma get_scene_None [simp]: "scene_classification a = None \<Longrightarrow>
    get_scene a = \<lparr>primary_category = None, secondary_categories = None\<rparr>"
  by (simp add: get_scene_def)


subsection \<open>Element statistics: keys and thresholds\<close>

lemma map_fst_element_stats:
  assumes "analyses \<noteq> []" and "aggregate_segmented_elements analyses = Inr s"
  shows "map fst (element_stats s) = elements_to_track"
  unfolding elements_fields(1)[OF assms]
  by (simp add: element_stat_of_def comp_def)

lemma no_segments_not_present:
  "segmented_elements a = None \<Longrightarrow> \<not> elem_present e a"
  by (simp add: elem_present_def get_segments_def get_elem_def truthy_bool_def)

text \<open>
  C10: for an input with at least one valid record, the keys of \<open>element_stats\<close> are
  exactly the seven tracked element names, in their fixed order, each with its three
  statistics; when no valid record holds a segmented-elements block, every element has
  presence count 0, presence rate 0 and average prominence 0.
\<close>

theorem element_stats_seven_keys:
  assumes "valid_analyses xs \<noteq> []"
  shows "\<exists>p. aggregate_album_analysis xs = Inr (Success p)
     \<and> map fst (element_stats (element_summary p))
         = [''sky'', ''buildings'', ''water'', ''people'', ''vegetation'', ''food_drinks'',
            ''vehicles_transit'']
     \<and> ((\<forall>a \<in> set (valid_analyses xs). segmented_elements a = None) \<longrightarrow>
          (\<forall>x \<in> set (element_stats (element_summary p)).
             presence_count (snd x) = 0 \<and> presence_rate (snd x) = 0
             \<and> avg_prominence (snd x) = 0))"
proof -
  let ?v = "valid_analyses xs"
  from aggregate_Success[OF assms] obtain p where p:
    "aggregate_album_analysis xs = Inr (Success p)"
    "aggregate_segmented_elements ?v = Inr (element_summary p)" by blast
  have keys: "map fst (element_stats (element_summary p))
         = [''sky'', ''buildings'', ''water'', ''people'', ''vegetation'', ''food_drinks'',
            ''vehicles_transit'']"
    unfolding map_fst_element_stats[OF assms p(2)] by (simp add: elements_to_track_def)
  have zero: "presence_count (snd x) = 0 \<and> presence_rate (snd x) = 0 \<and> avg_prominence (snd x) = 0"
    if none: "\<forall>a \<in> set ?v. segmented_elements a = None"
      and x: "x \<in> set (element_stats (element_summary p))" for x
  proof -
    have "filter (elem_present (fst x)) ?v = []"
      using none by (simp add: filter_empty_conv no_segments_not_present)
    with stats_entries[OF assms p(2) x] show ?thesis by simp
  qed
  have "(\<forall>a \<in> set ?v. segmented_elements a = None) \<longrightarrow>
          (\<forall>x \<in> set (element_stats (element_summary p)).
             presence_count (snd x) = 0 \<and> presence_rate (snd x) = 0
             \<and> avg_prominence (snd x) = 0)"
    using zero by (intro impI ballI)
  then show ?thesis
    by (intro exI[of _ p] conjI) (rule p(1) keys)+
qed

theorem element_stats_seven_keys_witness:
  "valid_analyses [bare_image] \<noteq> []
   \<and> map segmented_elements (valid_analyses [bare_image]) = [None]
   \<and> (\<exists>p. aggregate_album_analysis [bare_image] = Inr (Success p)
        \<and> map fst (element_stats (element_summary p))
            = [''sky'', ''buildings'', ''water'', ''people'', ''vegetation'', ''food_drinks'',
               ''vehicles_transit'']
        \<and> (\<forall>x \<in> set (element_stats (element_summary p)).
             presence_count (snd x) = 0 \<and> presence_rate (snd x) = 0
             \<and> avg_prominence (snd x) = 0)
        \<and> element_stats (element_summary p) \<noteq> [])"
proof -
  have v: "valid_analyses [bare_image] = [no_keys\<lparr>other_keys := True\<rparr>]"
    by (simp add: valid_analyses_Cons)
  have h: "valid_analyses [bare_image] \<noteq> []" unfolding v by simp
  have n: "\<forall>a \<in> set (valid_analyses [bare_image]). segmented_elements a = None"
    unfolding v by (simp add: no_keys_def)
  from element_stats_seven_keys[OF h] obtain p where p:
    "aggregate_album_analysis [bare_image] = Inr (Success p)"
    "map fst (element_stats (element_summary p))
         = [''sky'', ''buildings'', ''water'', ''people'', ''vegetation'', ''food_drinks'',
            ''vehicles_transit'']"
    and imp: "(\<forall>a \<in> set (valid_analyses [bare_image]). segmented_elements a = None) \<longrightarrow>
       (\<forall>x \<in> set (element_stats (element_summary p)).
             presence_count (snd x) = 0 \<and> presence_rate (snd x) = 0
             \<and> avg_prominence (snd x) = 0)"
    by (elim exE conjE)
  from imp n have z: "\<forall>x \<in> set (element_stats (element_summary p)).
             presence_count (snd x) = 0 \<and> presence_rate (snd x) = 0
             \<and> avg_prominence (snd x) = 0" by (rule mp)
  have ne: "element_stats (element_summary p) \<noteq> []"
  proof
    assume "element_stats (element_summary p) = []"
    with p(2) show False by simp
  qed
  have n': "map segmented_elements (valid_analyses [bare_image]) = [None]"
    unfolding v by (simp add: no_keys_def)
  show ?thesis
    by (intro conjI exI[of _ p]) (rule h n' p z ne)+
qed

lemma mem_filtered_ranked:
  assumes "analyses \<noteq> []" and "aggregate_segmented_elements analyses = Inr s"
    and "map_of (element_stats s) e = Some st"
  shows "e \<in> set (map fst (filter P (ranked_by_presence s))) \<longleftrightarrow> P (e, st)"
proof -
  have d: "distinct (map fst (element_stats s))"
    unfolding map_fst_element_stats[OF assms(1,2)] by (rule distinct_elements_to_track)
  have mem: "(e, st) \<in> set (element_stats s)" by (rule map_of_SomeD[OF assms(3)])
  have uniq: "x = (e, st)" if "x \<in> set (element_stats s)" "fst x = e" for x
  proof -
    have "x = (e, snd x)" using that(2) by (cases x) simp
    with that(1) have "(e, snd x) \<in> set (element_stats s)" by simp
    then have "map_of (element_stats s) e = Some (snd x)" using d by simp
    with assms(3) have "snd x = st" by simp
    with \<open>x = (e, snd x)\<close> show ?thesis by simp
  qed
  have "e \<in> set (map fst (filter P (ranked_by_presence s)))
      \<longleftrightarrow> (\<exists>x \<in> set (element_stats s). P x \<and> fst x = e)"
    unfolding elements_fields(2)[OF assms(1,2)] by auto
  also have "\<dots> \<longleftrightarrow> P (e, st)"
  proof
    assume "\<exists>x \<in> set (element_stats s). P x \<and> fst x = e"
    then obtain x where x: "x \<in> set (element_stats s)" "P x" "fst x = e" by blast
    from uniq[OF x(1,3)] x(2) show "P (e, st)" by simp
  next
    assume "P (e, st)"
    with mem show "\<exists>x \<in> set (element_stats s). P x \<and> fst x = e" by force
  qed
  finally show ?thesis .
qed

text \<open>
  C5: for an input with at least one valid record and a tracked element with its
  statistics, the element is in \<open>dominant_elements\<close> exactly when its presence rate is at
  least 50, and in \<open>rare_elements\<close> exactly when its presence rate is above 0 and below 20.
\<close>

theorem dominant_rare_thresholds:
  assumes "valid_analyses xs \<noteq> []" and "e \<in> set elements_to_track"
  shows "\<exists>p st. aggregate_album_analysis xs = Inr (Success p)
     \<and> map_of (element_stats (element_summary p)) e = Some st
     \<and> presence_rate st
         = py_round (of_nat (length (filter (elem_present e) (valid_analyses xs)))
                     / of_nat (length (valid_analyses xs)) * 100) 1
     \<and> (e \<in> set (dominant_elements (element_summary p)) \<longleftrightarrow> presence_rate st \<ge> 50)
     \<and> (e \<in> set (rare_elements (element_summary p))
          \<longleftrightarrow> 0 < presence_rate st \<and> presence_rate st < 20)"
proof -
  let ?v = "valid_analyses xs"
  from aggregate_Success[OF assms(1)] obtain p where p:
    "aggregate_album_analysis xs = Inr (Success p)"
    "aggregate_segmented_elements ?v = Inr (element_summary p)" by blast
  from stat_lookup[OF assms(1) p(2) assms(2)] obtain st where st:
    "map_of (element_stats (element_summary p)) e = Some st"
    "presence_count st = length (filter (elem_present e) ?v)"
    "presence_rate st = py_round (of_nat (presence_count st) / of_nat (length ?v) * 100) 1"
    by blast
  have dom: "e \<in> set (dominant_elements (element_summary p)) \<longleftrightarrow> presence_rate st \<ge> 50"
    unfolding elements_fields(3)[OF assms(1) p(2)]
      mem_filtered_ranked[OF assms(1) p(2) st(1)] by simp
  have rare: "e \<in> set (rare_elements (element_summary p))
          \<longleftrightarrow> 0 < presence_rate st \<and> presence_rate st < 20"
    unfolding elements_fields(4)[OF assms(1) p(2)]
      mem_filtered_ranked[OF assms(1) p(2) st(1)] by simp
  show ?thesis
    using p(1) st(1) st(3)[unfolded st(2)] dom rare by blast
qed

lemma valid_analyses_append:
  "valid_analyses (xs @ ys) = valid_analyses xs @ valid_analyses ys"
  by (induction xs) (simp_all add: valid_analyses_Cons split: option.splits)

lemma valid_analyses_replicate:
  "valid_analysis x = Some a \<Longrightarrow> valid_analyses (replicate n x) = replicate n a"
  by (induction n) (simp_all add: valid_analyses_Cons)

lemma sky_album_counts:
  "length (valid_analyses (sky_album n m)) = n + m"
  "length (filter (elem_present ''sky'') (valid_analyses (sky_album n m))) = n"
proof -
  let ?sky = "no_keys\<lparr>segmented_elements := Some [''sky'' \<mapsto>
          \<lparr>present = Some True, prominence = Some (1 / 4), count = None\<rparr>]\<rparr>"
  let ?bare = "no_keys\<lparr>other_keys := True\<rparr>"
  have s: "valid_analysis sky_image = Some ?sky" by (simp add: sky_image_def)
  have b: "valid_analysis bare_image = Some ?bare" by simp
  have v: "valid_analyses (sky_album n m) = replicate n ?sky @ replicate m ?bare"
    by (simp add: sky_album_def valid_analyses_append valid_analyses_replicate[OF s]
          valid_analyses_replicate[OF b])
  show "length (valid_analyses (sky_album n m)) = n + m" unfolding v by simp
  have ps: "elem_present ''sky'' ?sky"
    by (simp add: elem_present_def get_segments_def get_elem_def truthy_bool_def)
  have pb: "\<not> elem_present ''sky'' ?bare"
    by (simp add: no_segments_not_present no_keys_def)
  show "length (filter (elem_present ''sky'') (valid_analyses (sky_album n m))) = n"
    unfolding v using ps pb by simp
qed

lemma sky_album_valid: "0 < n + m \<Longrightarrow> valid_analyses (sky_album n m) \<noteq> []"
  using sky_album_counts(1)[of n m] by auto

lemma sky_tracked: "''sky'' \<in> set elements_to_track"
  by (simp add: elements_to_track_def)

theorem dominant_rare_thresholds_witness:
  "valid_analyses (sky_album 1 1) \<noteq> [] \<and> ''sky'' \<in> set elements_to_track
   \<and> (\<exists>p st. aggregate_album_analysis (sky_album 1 1) = Inr (Success p)
         \<and> map_of (element_stats (element_summary p)) ''sky'' = Some st
         \<and> presence_rate st = 50
         \<and> ''sky'' \<in> set (dominant_elements (element_summary p)))
   \<and> (\<exists>p st. aggregate_album_analysis (sky_album 1 4) = Inr (Success p)
         \<and> map_of (element_stats (element_summary p)) ''sky'' = Some st
         \<and> presence_rate st = 20
         \<and> ''sky'' \<notin> set (rare_elements (element_summary p)))
   \<and> (\<exists>p st. aggregate_album_analysis (sky_album 199 801) = Inr (Success p)
         \<and> map_of (element_stats (element_summary p)) ''sky'' = Some st
         \<and> presence_rate st = 199 / 10
         \<and> ''sky'' \<in> set (rare_elements (element_summary p)))"
proof -
  have h1: "valid_analyses (sky_album 1 1) \<noteq> []" by (rule sky_album_valid) simp
  have h2: "valid_analyses (sky_album 1 4) \<noteq> []" by (rule sky_album_valid) simp
  have h3: "valid_analyses (sky_album 199 801) \<noteq> []" by (rule sky_album_valid) simp
  have r1: "py_round (of_nat 1 / of_nat (1 + 1) * 100) 1 = 50"
    by (simp add: py_round_def round_half_even_def)
  have r2: "py_round (of_nat 1 / of_nat (1 + 4) * 100) 1 = 20"
    by (simp add: py_round_def round_half_even_def)
  have r3: "py_round (of_nat 199 / of_nat (199 + 801) * 100) 1 = 199 / 10"
    by (simp add: py_round_def round_half_even_def)
  from dominant_rare_thresholds[OF h1 sky_tracked] obtain p1 st1 where a:
    "aggregate_album_analysis (sky_album 1 1) = Inr (Success p1)"
    "map_of (element_stats (element_summary p1)) ''sky'' = Some st1"
    "presence_rate st1
       = py_round (of_nat (length (filter (elem_present ''sky'') (valid_analyses (sky_album 1 1))))
                     / of_nat (length (valid_analyses (sky_album 1 1))) * 100) 1"
    "''sky'' \<in> set (dominant_elements (element_summary p1)) \<longleftrightarrow> presence_rate st1 \<ge> 50"
    by (elim exE conjE)
  have a3: "presence_rate st1 = 50" using a(3) unfolding sky_album_counts r1 .
  have a4: "''sky'' \<in> set (dominant_elements (element_summary p1))"
    unfolding a(4) a3 by simp
  from dominant_rare_thresholds[OF h2 sky_tracked] obtain p2 st2 where b:
    "aggregate_album_analysis (sky_album 1 4) = Inr (Success p2)"
    "map_of (element_stats (element_summary p2)) ''sky'' = Some st2"
    "presence_rate st2
       = py_round (of_nat (length (filter (elem_present ''sky'') (valid_analyses (sky_album 1 4))))
                     / of_nat (length (valid_analyses (sky_album 1 4))) * 100) 1"
    "''sky'' \<in> set (rare_elements (element_summary p2))
       \<longleftrightarrow> 0 < presence_rate st2 \<and> presence_rate st2 < 20"
    by (elim exE conjE)
  have b3: "presence_rate st2 = 20" using b(3) unfolding sky_album_counts r2 .
  have b4: "''sky'' \<notin> set (rare_elements (element_summary p2))"
    unfolding b(4) b3 by simp
  from dominant_rare_thresholds[OF h3 sky_tracked] obtain p3 st3 where c:
    "aggregate_album_analysis (sky_album 199 801) = Inr (Success p3)"
    "map_of (element_stats (element_summary p3)) ''sky'' = Some st3"
    "presence_rate st3
       = py_round (of_nat (length (filter (elem_present ''sky'') (valid_analyses (sky_album 199 801))))
                     / of_nat (length (valid_analyses (sky_album 199 801))) * 100) 1"
    "''sky'' \<in> set (rare_elements (element_summary p3))
       \<longleftrightarrow> 0 < presence_rate st3 \<and> presence_rate st3 < 20"
    by (elim exE conjE)
  have c3: "presence_rate st3 = 199 / 10" using c(3) unfolding sky_album_counts r3 .
  have c4: "''sky'' \<in> set (rare_elements (element_summary p3))"
    unfolding c(4) c3 by simp
  have A: "\<exists>p st. aggregate_album_analysis (sky_album 1 1) = Inr (Success p)
         \<and> map_of (element_stats (element_summary p)) ''sky'' = Some st
         \<and> presence_rate st = 50
         \<and> ''sky'' \<in> set (dominant_elements (element_summary p))"
    by (intro exI[of _ p1] exI[of _ st1] conjI) (rule a(1) a(2) a3 a4)+
  have B: "\<exists>p st. aggregate_album_analysis (sky_album 1 4) = Inr (Success p)
         \<and> map_of (element_stats (element_summary p)) ''sky'' = Some st
         \<and> presence_rate st = 20
         \<and> ''sky'' \<notin> set (rare_elements (element_summary p))"
    by (intro exI[of _ p2] exI[of _ st2] conjI) (rule b(1) b(2) b3 b4)+
  have C: "\<exists>p st. aggregate_album_analysis (sky_album 199 801) = Inr (Success p)
         \<and> map_of (element_stats (element_summary p)) ''sky'' = Some st
         \<and> presence_rate st = 199 / 10
         \<and> ''sky'' \<in> set (rare_elements (element_summary p))"
    by (intro exI[of _ p3] exI[of _ st3] conjI) (rule c(1) c(2) c3 c4)+
  show ?thesis
    by (intro conjI) (rule h1 sky_tracked A B C)+
qed

subsection \<open>Recurring notable elements\<close>

lemma notable_fields:
  assumes "aggregate_album_analysis xs = Inr (Success p)"
  shows "all_notable_elements (notable_summary p)
           = most_common_n 20 (Counter (all_notable_of (valid_analyses xs)))"
    and "unique_notable_count (notable_summary p)
           = length (Counter (all_notable_of (valid_analyses xs)))"
    and "recurring_elements (notable_summary p)
           = map fst (filter (\<lambda>ec. snd ec \<ge> 2) (Counter (all_notable_of (valid_analyses xs))))"
  unfolding aggregate_parts(6)[OF assms] notable_closed_form by simp_all

text \<open>
  C3 (as stated): \<open>recurring_elements\<close> lists the entries of the top-20 list whose count
  is at least 2, in that list's order, so at most 20 entries. For one image with 21
  distinct notable elements, each named twice and the last one three times,
  \<open>recurring_elements\<close> holds all 21 in the order in which they were first seen, while
  the top-20 list starts with the most frequent element and lacks the twentieth.
\<close>

theorem recurring_elements_not_from_top20:
  "map_option (\<lambda>p. (recurring_elements (notable_summary p),
                    map fst (filter (\<lambda>ec. snd ec \<ge> 2) (all_notable_elements (notable_summary p)))))
     (profile_of (aggregate_album_analysis recurring_album))
   = Some ([''a'', ''b'', ''c'', ''d'', ''e'', ''f'', ''g'', ''h'', ''i'', ''j'', ''k'', ''l'',
            ''m'', ''n'', ''o'', ''p'', ''q'', ''r'', ''s'', ''t'', ''u''],
           [''u'', ''a'', ''b'', ''c'', ''d'', ''e'', ''f'', ''g'', ''h'', ''i'', ''j'', ''k'',
            ''l'', ''m'', ''n'', ''o'', ''p'', ''q'', ''r'', ''s''])"
proof -
  have v: "all_notable_of (valid_analyses recurring_album) =
     [''a'', ''a'', ''b'', ''b'', ''c'', ''c'', ''d'', ''d'', ''e'', ''e'', ''f'',
       ''f'', ''g'', ''g'', ''h'', ''h'', ''i'', ''i'', ''j'', ''j'', ''k'', ''k'',
       ''l'', ''l'', ''m'', ''m'', ''n'', ''n'', ''o'', ''o'', ''p'', ''p'', ''q'',
       ''q'', ''r'', ''r'', ''s'', ''s'', ''t'', ''t'', ''u'', ''u'', ''u'']"
    by (simp add: recurring_album_def valid_analyses_Cons all_notable_of_def get_list_def
          no_keys_def)
  have ne: "valid_analyses recurring_album \<noteq> []"
    by (simp add: recurring_album_def valid_analyses_Cons)
  have c: "Counter [''a'', ''a'', ''b'', ''b'', ''c'', ''c'', ''d'', ''d'', ''e'', ''e'', ''f'',
       ''f'', ''g'', ''g'', ''h'', ''h'', ''i'', ''i'', ''j'', ''j'', ''k'', ''k'',
       ''l'', ''l'', ''m'', ''m'', ''n'', ''n'', ''o'', ''o'', ''p'', ''p'', ''q'',
       ''q'', ''r'', ''r'', ''s'', ''s'', ''t'', ''t'', ''u'', ''u'', ''u'']
     = [(''a'', 2), (''b'', 2), (''c'', 2), (''d'', 2), (''e'', 2), (''f'', 2), (''g'', 2),
        (''h'', 2), (''i'', 2), (''j'', 2), (''k'', 2), (''l'', 2), (''m'', 2), (''n'', 2),
        (''o'', 2), (''p'', 2), (''q'', 2), (''r'', 2), (''s'', 2), (''t'', 2), (''u'', 3)]"
    by (simp add: Counter_def)
  have m: "most_common_n 20
       [(''a'', 2), (''b'', 2), (''c'', 2), (''d'', 2), (''e'', 2), (''f'', 2), (''g'', 2),
        (''h'', 2), (''i'', 2), (''j'', 2), (''k'', 2), (''l'', 2), (''m'', 2), (''n'', 2),
        (''o'', 2), (''p'', 2), (''q'', 2), (''r'', 2), (''s'', 2), (''t'', 2), (''u'', 3::nat)]
     = [(''u'', 3), (''a'', 2), (''b'', 2), (''c'', 2), (''d'', 2), (''e'', 2), (''f'', 2),
        (''g'', 2), (''h'', 2), (''i'', 2), (''j'', 2), (''k'', 2), (''l'', 2), (''m'', 2),
        (''n'', 2), (''o'', 2), (''p'', 2), (''q'', 2), (''r'', 2), (''s'', 2)]"
    by (simp add: most_common_n_def most_common_def)
  from aggregate_Success[OF ne] obtain p where
    p: "aggregate_album_analysis recurring_album = Inr (Success p)" by blast
  have r: "recurring_elements (notable_summary p)
      = [''a'', ''b'', ''c'', ''d'', ''e'', ''f'', ''g'', ''h'', ''i'', ''j'', ''k'', ''l'',
            ''m'', ''n'', ''o'', ''p'', ''q'', ''r'', ''s'', ''t'', ''u'']"
    unfolding notable_fields(3)[OF p] v c by simp
  have t: "map fst (filter (\<lambda>ec. snd ec \<ge> 2) (all_notable_elements (notable_summary p)))
      = [''u'', ''a'', ''b'', ''c'', ''d'', ''e'', ''f'', ''g'', ''h'', ''i'', ''j'', ''k'',
            ''l'', ''m'', ''n'', ''o'', ''p'', ''q'', ''r'', ''s'']"
    unfolding notable_fields(1)[OF p] v c m by simp
  show ?thesis unfolding p by (simp add: profile_of_def r t)
qed

lemma recurring_mem:
  "e \<in> set (map fst (filter (\<lambda>ec. snd ec \<ge> 2) (Counter ks))) \<longleftrightarrow> 2 \<le> count_list ks e"
proof
  assume "e \<in> set (map fst (filter (\<lambda>ec. snd ec \<ge> 2) (Counter ks)))"
  then obtain n where n: "(e, n) \<in> set (Counter ks)" "2 \<le> n" by auto
  from Counter_count[OF n(1)] n(2) show "2 \<le> count_list ks e" by simp
next
  assume c: "2 \<le> count_list ks e"
  then have "e \<in> set ks" using count_notin[of e ks] by (cases "e \<in> set ks") auto
  then have "map_of (Counter ks) e = Some (count_list ks e)" by (simp add: map_of_Counter)
  then have "(e, count_list ks e) \<in> set (Counter ks)" by (rule map_of_SomeD)
  with c show "e \<in> set (map fst (filter (\<lambda>ec. snd ec \<ge> 2) (Counter ks)))" by force
qed

lemma recurring_order:
  "sorted_wrt (\<lambda>a b. first_seen ks a < first_seen ks b)
     (map fst (filter (\<lambda>ec. snd ec \<ge> 2) (Counter ks)))"
proof -
  have "sorted_wrt (\<lambda>a b. first_seen ks (fst a) < first_seen ks (fst b)) (Counter ks)"
    using Counter_first_seen_order[of ks] by (simp add: sorted_wrt_map)
  then have "sorted_wrt (\<lambda>a b. first_seen ks (fst a) < first_seen ks (fst b))
      (filter (\<lambda>ec. snd ec \<ge> 2) (Counter ks))"
    by (rule sorted_wrt_filter)
  then show ?thesis by (simp add: sorted_wrt_map)
qed

text \<open>
  C3 (amended): for an input with at least one valid record, \<open>recurring_elements\<close> holds
  exactly the notable entries whose total count over the valid records is at least 2,
  each once, in the order in which they were first seen in the input.
\<close>

theorem recurring_elements_first_seen:
  assumes "valid_analyses xs \<noteq> []"
  shows "\<exists>p. aggregate_album_analysis xs = Inr (Success p)
     \<and> (\<forall>e. e \<in> set (recurring_elements (notable_summary p))
               \<longleftrightarrow> 2 \<le> count_list (all_notable_of (valid_analyses xs)) e)
     \<and> sorted_wrt (\<lambda>a b. first_seen (all_notable_of (valid_analyses xs)) a
                            < first_seen (all_notable_of (valid_analyses xs)) b)
          (recurring_elements (notable_summary p))"
proof -
  from aggregate_Success[OF assms] obtain p where
    p: "aggregate_album_analysis xs = Inr (Success p)" by blast
  have m: "\<forall>e. e \<in> set (recurring_elements (notable_summary p))
               \<longleftrightarrow> 2 \<le> count_list (all_notable_of (valid_analyses xs)) e"
    unfolding notable_fields(3)[OF p] by (intro allI recurring_mem)
  have s: "sorted_wrt (\<lambda>a b. first_seen (all_notable_of (valid_analyses xs)) a
                            < first_seen (all_notable_of (valid_analyses xs)) b)
          (recurring_elements (notable_summary p))"
    unfolding notable_fields(3)[OF p] by (rule recurring_order)
  show ?thesis by (intro exI[of _ p] conjI) (rule p m s)+
qed

theorem recurring_elements_first_seen_witness:
  "valid_analyses [notable_image [''gull'', ''lighthouse''], notable_image [''lighthouse'', ''pier'']]
     \<noteq> []
   \<and> (\<exists>p. aggregate_album_analysis
             [notable_image [''gull'', ''lighthouse''], notable_image [''lighthouse'', ''pier'']]
            = Inr (Success p)
        \<and> ''lighthouse'' \<in> set (recurring_elements (notable_summary p))
        \<and> ''gull'' \<notin> set (recurring_elements (notable_summary p))
        \<and> ''pier'' \<notin> set (recurring_elements (notable_summary p)))"
proof -
  let ?xs = "[notable_image [''gull'', ''lighthouse''], notable_image [''lighthouse'', ''pier'']]"
  have h: "valid_analyses ?xs \<noteq> []" by (simp add: valid_analyses_Cons)
  have n: "all_notable_of (valid_analyses ?xs) = [''gull'', ''lighthouse'', ''lighthouse'', ''pier'']"
    by (simp add: valid_analyses_Cons all_notable_of_def get_list_def no_keys_def)
  from recurring_elements_first_seen[OF h] obtain p where p:
    "aggregate_album_analysis ?xs = Inr (Success p)"
    "\<forall>e. e \<in> set (recurring_elements (notable_summary p))
               \<longleftrightarrow> 2 \<le> count_list (all_notable_of (valid_analyses ?xs)) e"
    by (elim exE conjE)
  have a: "''lighthouse'' \<in> set (recurring_elements (notable_summary p))"
    using p(2)[rule_format, of "''lighthouse''"] unfolding n by simp
  have b: "''gull'' \<notin> set (recurring_elements (notable_summary p))"
    using p(2)[rule_format, of "''gull''"] unfolding n by simp
  have c: "''pier'' \<notin> set (recurring_elements (notable_summary p))"
    using p(2)[rule_format, of "''pier''"] unfolding n by simp
  show ?thesis by (intro conjI exI[of _ p]) (rule h p(1) a b c)+
qed

subsection \<open>Fallback literals\<close>

lemma top_of_fallback:
  "(\<forall>a \<in> set analyses. \<not> truthy_str (f a)) \<Longrightarrow>
   top_of (Counter (truthy_keys f analyses)) fallback = fallback"
  by (simp add: truthy_keys_none)

lemma top_of_nonempty:
  "fallback \<noteq> [] \<Longrightarrow> top_of (Counter (truthy_keys f analyses)) fallback \<noteq> []"
  using top_of_Counter_truthy[of f analyses fallback] by blast

text \<open>
  C6: for an input with at least one valid record, each of the eight single-winner
  fields takes its fallback literal when no valid record supplies a non-empty value for
  it: \<open>dominant_scene_type\<close> "mixed", colour temperature "mixed", lighting "varied",
  setting "mixed", time of day "varied", weather "varied", \<open>dominant_mood\<close> "mixed",
  \<open>overall_energy\<close> "medium"; and none of the eight fields is ever the empty string.
\<close>

theorem fallback_literals:
  assumes "valid_analyses xs \<noteq> []"
  shows "\<exists>p. aggregate_album_analysis xs = Inr (Success p)
     \<and> ((\<forall>a \<in> set (valid_analyses xs). \<not> truthy_str (primary_category (get_scene a)))
          \<longrightarrow> dominant_scene_type (scene_summary p) = ''mixed'')
     \<and> ((\<forall>a \<in> set (valid_analyses xs). \<not> truthy_str (color_temperature (get_visual a)))
          \<longrightarrow> color_temperature_dominant (visual_summary p) = ''mixed'')
     \<and> ((\<forall>a \<in> set (valid_analyses xs). \<not> truthy_str (lighting_condition (get_visual a)))
          \<longrightarrow> lighting_dominant (visual_summary p) = ''varied'')
     \<and> ((\<forall>a \<in> set (valid_analyses xs). \<not> truthy_str (indoor_outdoor (get_visual a)))
          \<longrightarrow> primary_setting (visual_summary p) = ''mixed'')
     \<and> ((\<forall>a \<in> set (valid_analyses xs). \<not> truthy_str (time_of_day (get_visual a)))
          \<longrightarrow> time_of_day_most_common (visual_summary p) = ''varied'')
     \<and> ((\<forall>a \<in> set (valid_analyses xs). \<not> truthy_str (weather_apparent (get_visual a)))
          \<longrightarrow> weather_most_common (visual_summary p) = ''varied'')
     \<and> ((\<forall>a \<in> set (valid_analyses xs). \<not> truthy_str (overall_mood (get_mood a)))
          \<longrightarrow> dominant_mood (mood_summary p) = ''mixed'')
     \<and> ((\<forall>a \<in> set (valid_analyses xs). \<not> truthy_str (energy_level (get_mood a)))
          \<longrightarrow> overall_energy (mood_summary p) = ''medium'')
     \<and> dominant_scene_type (scene_summary p) \<noteq> []
     \<and> color_temperature_dominant (visual_summary p) \<noteq> []
     \<and> lighting_dominant (visual_summary p) \<noteq> []
     \<and> primary_setting (visual_summary p) \<noteq> []
     \<and> time_of_day_most_common (visual_summary p) \<noteq> []
     \<and> weather_most_common (visual_summary p) \<noteq> []
     \<and> dominant_mood (mood_summary p) \<noteq> []
     \<and> overall_energy (mood_summary p) \<noteq> []"
proof -
  let ?v = "valid_analyses xs"
  from aggregate_Success[OF assms] obtain p where p:
    "aggregate_album_analysis xs = Inr (Success p)"
    "aggregate_scene_classifications ?v = Inr (scene_summary p)"
    "aggregate_visual_features ?v = Inr (visual_summary p)"
    "aggregate_mood_atmosphere ?v = Inr (mood_summary p)" by blast
  have sc: "dominant_scene_type (scene_summary p)
      = top_of (Counter (truthy_keys (\<lambda>a. primary_category (get_scene a)) ?v)) ''mixed''"
    using scene_fields(3)[OF p(2)] by (simp add: primary_keys_def)
  from visual_dominants[of ?v] p(3) have
    ct: "color_temperature_dominant (visual_summary p)
         = top_of (Counter (truthy_keys (\<lambda>a. color_temperature (get_visual a)) ?v)) ''mixed''"
    and li: "lighting_dominant (visual_summary p)
         = top_of (Counter (truthy_keys (\<lambda>a. lighting_condition (get_visual a)) ?v)) ''varied''"
    and io: "primary_setting (visual_summary p)
         = top_of (Counter (truthy_keys (\<lambda>a. indoor_outdoor (get_visual a)) ?v)) ''mixed''"
    and td: "time_of_day_most_common (visual_summary p)
         = top_of (Counter (truthy_keys (\<lambda>a. time_of_day (get_visual a)) ?v)) ''varied''"
    and we: "weather_most_common (visual_summary p)
         = top_of (Counter (truthy_keys (\<lambda>a. weather_apparent (get_visual a)) ?v)) ''varied''"
    by auto
  from mood_dominants[of ?v] p(4) have
    mo: "dominant_mood (mood_summary p)
         = top_of (Counter (truthy_keys (\<lambda>a. overall_mood (get_mood a)) ?v)) ''mixed''"
    and en: "overall_energy (mood_summary p)
         = top_of (Counter (truthy_keys (\<lambda>a. energy_level (get_mood a)) ?v)) ''medium''"
    by auto
  show ?thesis
  proof (intro exI[of _ p] conjI impI)
    show "aggregate_album_analysis xs = Inr (Success p)" by (rule p(1))
  qed (simp_all only: sc ct li io td we mo en top_of_fallback, (rule top_of_nonempty, simp)+)
qed

theorem fallback_literals_witness:
  "valid_analyses [scene_image [] [], bare_image] \<noteq> []
   \<and> (\<exists>p. aggregate_album_analysis [scene_image [] [], bare_image] = Inr (Success p)
        \<and> dominant_scene_type (scene_summary p) = ''mixed''
        \<and> color_temperature_dominant (visual_summary p) = ''mixed''
        \<and> lighting_dominant (visual_summary p) = ''varied''
        \<and> primary_setting (visual_summary p) = ''mixed''
        \<and> time_of_day_most_common (visual_summary p) = ''varied''
        \<and> weather_most_common (visual_summary p) = ''varied''
        \<and> dominant_mood (mood_summary p) = ''mixed''
        \<and> overall_energy (mood_summary p) = ''medium'')"
proof -
  let ?xs = "[scene_image [] [], bare_image]"
  have v: "valid_analyses ?xs =
      [no_keys\<lparr>scene_classification :=
          Some \<lparr>primary_category = Some [], secondary_categories = Some []\<rparr>\<rparr>,
       no_keys\<lparr>other_keys := True\<rparr>]"
    by (simp add: valid_analyses_Cons)
  have h: "valid_analyses ?xs \<noteq> []" unfolding v by simp
  have s1: "\<forall>a \<in> set (valid_analyses ?xs). \<not> truthy_str (primary_category (get_scene a))"
    unfolding v by (simp add: get_scene_def truthy_str_def no_keys_def)
  have s2: "\<forall>a \<in> set (valid_analyses ?xs). \<not> truthy_str (color_temperature (get_visual a))"
    unfolding v by (simp add: get_visual_def truthy_str_def no_keys_def)
  have s3: "\<forall>a \<in> set (valid_analyses ?xs). \<not> truthy_str (lighting_condition (get_visual a))"
    unfolding v by (simp add: get_visual_def truthy_str_def no_keys_def)
  have s4: "\<forall>a \<in> set (valid_analyses ?xs). \<not> truthy_str (indoor_outdoor (get_visual a))"
    unfolding v by (simp add: get_visual_def truthy_str_def no_keys_def)
  have s5: "\<forall>a \<in> set (valid_analyses ?xs). \<not> truthy_str (time_of_day (get_visual a))"
    unfolding v by (simp add: get_visual_def truthy_str_def no_keys_def)
  have s6: "\<forall>a \<in> set (valid_analyses ?xs). \<not> truthy_str (weather_apparent (get_visual a))"
    unfolding v by (simp add: get_visual_def truthy_str_def no_keys_def)
  have s7: "\<forall>a \<in> set (valid_analyses ?xs). \<not> truthy_str (overall_mood (get_mood a))"
    unfolding v by (simp add: get_mood_def truthy_str_def no_keys_def)
  have s8: "\<forall>a \<in> set (valid_analyses ?xs). \<not> truthy_str (energy_level (get_mood a))"
    unfolding v by (simp add: get_mood_def truthy_str_def no_keys_def)
  from fallback_literals[OF h] obtain p where p:
    "aggregate_album_analysis ?xs = Inr (Success p)"
    and i1: "(\<forall>a \<in> set (valid_analyses ?xs). \<not> truthy_str (primary_category (get_scene a)))
          \<longrightarrow> dominant_scene_type (scene_summary p) = ''mixed''"
    and i2: "(\<forall>a \<in> set (valid_analyses ?xs). \<not> truthy_str (color_temperature (get_visual a)))
          \<longrightarrow> color_temperature_dominant (visual_summary p) = ''mixed''"
    and i3: "(\<forall>a \<in> set (valid_analyses ?xs). \<not> truthy_str (lighting_condition (get_visual a)))
          \<longrightarrow> lighting_dominant (visual_summary p) = ''varied''"
    and i4: "(\<forall>a \<in> set (valid_analyses ?xs). \<not> truthy_str (indoor_outdoor (get_visual a)))
          \<longrightarrow> primary_setting (visual_summary p) = ''mixed''"
    and i5: "(\<forall>a \<in> set (valid_analyses ?xs). \<not> truthy_str (time_of_day (get_visual a)))
          \<longrightarrow> time_of_day_most_common (visual_summary p) = ''varied''"
    and i6: "(\<forall>a \<in> set (valid_analyses ?xs). \<not> truthy_str (weather_apparent (get_visual a)))
          \<longrightarrow> weather_most_common (visual_summary p) = ''varied''"
    and i7: "(\<forall>a \<in> set (valid_analyses ?xs). \<not> truthy_str (overall_mood (get_mood a)))
          \<longrightarrow> dominant_mood (mood_summary p) = ''mixed''"
    and i8: "(\<forall>a \<in> set (valid_analyses ?xs). \<not> truthy_str (energy_level (get_mood a)))
          \<longrightarrow> overall_energy (mood_summary p) = ''medium''"
    by (elim exE conjE)
  show ?thesis
    by (intro conjI exI[of _ p])
       (rule h p mp[OF i1 s1] mp[OF i2 s2] mp[OF i3 s3]
             mp[OF i4 s4] mp[OF i5 s5] mp[OF i6 s6]
             mp[OF i7 s7] mp[OF i8 s8])+
qed

subsection \<open>Reducers on absent blocks\<close>













subsection \<open>No exception on missing data\<close>

text \<open>
  The guard of the call matters: on an empty list of analyses the element reducer divides
  by the number of analyses and raises.
\<close>

lemma elements_raise_on_empty: "aggregate_segmented_elements [] = Inl ZeroDivisionError"
  by (simp add: aggregate_segmented_elements_def elements_to_track_def element_stat_def
        py_div_def elem_acc_init_def Let_def)



subsection \<open>People in the synthesis profile\<close>

text \<open>
  C2: \<open>has_people\<close> should be true exactly when people are present in at least one
  image. For the single image \<open>people_without_count\<close>, in which people are present,
  the element statistics count one image with people present and the profile lists
  people among the dominant visual elements, while \<open>images_with_people\<close> is 0 and
  \<open>has_people\<close> is false: the counter behind \<open>has_people\<close> is only incremented for a
  truthy \<open>count\<close>.
\<close>

theorem has_people_false_although_people_present:
  "map_option (\<lambda>p. (map_option presence_count (map_of (element_stats (element_summary p)) ''people''),
                    ''people'' \<in> set (dominant_visual_elements (synthesis_prompt_data p)),
                    images_with_people (people_presence (element_summary p)),
                    has_people (synthesis_prompt_data p)))
     (profile_of (aggregate_album_analysis [people_without_count]))
   = Some (Some 1, True, 0, False)"
proof -
  let ?a = "no_keys\<lparr>segmented_elements := Some [''people'' \<mapsto>
          \<lparr>present = Some True, prominence = Some (1 / 2), count = None\<rparr>]\<rparr>"
  have v: "valid_analyses [people_without_count] = [?a]"
    by (simp add: valid_analyses_Cons people_without_count_def)
  have ne: "valid_analyses [people_without_count] \<noteq> []" unfolding v by simp
  from has_people_iff[OF ne] obtain p where p:
    "aggregate_album_analysis [people_without_count] = Inr (Success p)"
    "images_with_people (people_presence (element_summary p))
         = length (filter people_counted (valid_analyses [people_without_count]))"
    "has_people (synthesis_prompt_data p)
       \<longleftrightarrow> (\<exists>a \<in> set (valid_analyses [people_without_count]). people_counted a)" by blast
  have pt: "''people'' \<in> set elements_to_track" by (simp add: elements_to_track_def)
  have pr: "elem_present ''people'' ?a"
    by (simp add: elem_present_def get_segments_def get_elem_def truthy_bool_def)
  have nc: "\<not> people_counted ?a"
    by (simp add: people_counted_def get_segments_def get_elem_def get_num_def)
  have c: "map_option presence_count (map_of (element_stats (element_summary p)) ''people'')
      = Some 1"
    unfolding people_presence_count[OF ne p(1) pt] v using pr by simp
  note el = aggregate_parts(3)[OF p(1)]
  from stat_lookup[OF ne el pt] obtain st where st:
    "map_of (element_stats (element_summary p)) ''people'' = Some st"
    "presence_count st = length (filter (elem_present ''people'') (valid_analyses [people_without_count]))"
    "presence_rate st
       = py_round (of_nat (presence_count st)
                   / of_nat (length (valid_analyses [people_without_count])) * 100) 1"
    by blast
  have rate: "presence_rate st = 100"
    unfolding st(3) st(2) v using pr by (simp add: py_round_def round_half_even_def)
  have "''people'' \<in> set (dominant_elements (element_summary p))"
    unfolding elements_fields(3)[OF ne el] mem_filtered_ranked[OF ne el st(1)]
    by (simp add: rate)
  then have d: "''people'' \<in> set (dominant_visual_elements (synthesis_prompt_data p))"
    unfolding aggregate_parts(7)[OF p(1)] by (simp add: create_synthesis_prompt_data_def)
  show ?thesis
    using p c d nc unfolding v by (simp add: profile_of_def)
qed

end
